theory Spec2Isabelle
  imports Complex_Main "HOL-Library.AList" "HOL-Library.Sublist"
begin

section \<open>Data model\<close>

text \<open>
  Python exceptions the modelled code can raise, and the outcome of a call: it returns,
  it raises, or (for the unbounded \<open>while url:\<close> loops) it has not returned within the
  number of iterations it was given.
\<close>

datatype exn = KeyError | IndexError | AttributeError | TypeError | RuntimeError | FMCError

datatype 'a outcome = Return 'a | Raise exn | OutOfFuel

text \<open>
  A nested child reference inside an \<open>objects\<close> array, and a policy-object record.
  The keys the code pops or tests for (\<open>id\<close>, \<open>links\<close>, \<open>metadata\<close>, \<open>objects\<close>) are
  optional; \<open>name\<close>, \<open>type\<close> and \<open>overridable\<close> are taken to be present in every
  record. \<open>links\<close> holds \<open>links.self\<close>, \<open>body\<close> stands for the remaining keys.
\<close>

record child =
  c_id :: string
  c_name :: string
  c_overridable :: bool
  c_type :: string

record fpjson =
  j_name :: string
  j_id :: "string option"
  j_type :: string
  j_overridable :: bool
  j_links :: "string option"
  j_metadata :: "string option"
  j_objects :: "child list option"
  j_body :: string

record paging =
  count :: int
  "next" :: "string list option"

record listing =
  items :: "fpjson list"
  paging :: paging

text \<open>
  What a request returns: an empty result (the unsuccessful case, \<open>len(resp) == 0\<close>),
  a single record, or a page of a listing.
\<close>

datatype response = Empty | Record fpjson | Listing listing

record request =
  "method" :: string
  url :: string
  data :: "fpjson option"

text \<open>An \<open>OrderedDict\<close> of \<open>name: id\<close>: \<open>d[k] = v\<close> is \<open>AList.update\<close> (in place when the
  key exists, appended otherwise), \<open>d.pop(k)\<close> is \<open>AList.delete\<close>, \<open>d.get(k)\<close> is \<open>map_of\<close>.\<close>

type_synonym names = "(string \<times> string) list"

section \<open>FMCClient: the request counter\<close>

text \<open>
  \<open>req_time\<close> and \<open>req_count\<close> are the attributes of \<open>FMCClient\<close>. \<open>clock\<close> is what
  \<open>datetime.now()\<close> reads, in seconds; \<open>sleep\<close> advances it. \<open>trace\<close> records, in order,
  every sleep and every request handed on to the parent class.
\<close>

datatype event = Sleep real | Issue request

record client =
  req_time :: real
  req_count :: int
  clock :: real
  trace :: "event list"

definition sleep :: "real \<Rightarrow> client \<Rightarrow> client" where
  "sleep sleep_time c = c\<lparr>clock := clock c + sleep_time, trace := trace c @ [Sleep sleep_time]\<rparr>"

text \<open>The first part of \<open>_req\<close>, up to the method check: counting, sleeping, restarting
  the window.\<close>

definition rate_limit :: "client \<Rightarrow> client" where
  "rate_limit c0 =
     (let c = c0\<lparr>req_count := req_count c0 + 1\<rparr> in
      if req_count c = 1 then c\<lparr>req_time := clock c\<rparr>
      else if req_count c < 120 then c
      else
        (let time_diff = clock c - req_time c;
             c' = (if time_diff \<le> 60 then sleep (60 - time_diff + 1) c else c)
         in c'\<lparr>req_count := 1, req_time := clock c'\<rparr>))"

definition FMCClient_req ::
  "string \<Rightarrow> string option \<Rightarrow> fpjson option \<Rightarrow> client \<Rightarrow> unit outcome \<times> client" where
  "FMCClient_req u kw_method d c0 =
     (let c = rate_limit c0 in
      case kw_method of
        None \<Rightarrow> (Raise KeyError, c)
      | Some m \<Rightarrow>
          if m \<notin> set [''GET'', ''POST'', ''PUT'', ''DELETE''] then (Raise FMCError, c)
          else (Return (), c\<lparr>trace := trace c @ [Issue \<lparr>method = m, url = u, data = d\<rparr>]\<rparr>))"

text \<open>A caller issuing requests one after the other; before each one, the given number of
  seconds passes.\<close>

fun issue_all :: "(real \<times> request) list \<Rightarrow> client \<Rightarrow> client" where
  "issue_all [] c = c"
| "issue_all ((dt, r) # rs) c =
     issue_all rs (snd (FMCClient_req (url r) (Some (method r)) (data r) (c\<lparr>clock := clock c + dt\<rparr>)))"

fun sleeps :: "event list \<Rightarrow> real list" where
  "sleeps [] = []"
| "sleeps (Sleep d # es) = d # sleeps es"
| "sleeps (Issue r # es) = sleeps es"

definition fresh_client :: client where
  "fresh_client = \<lparr>req_time = 0, req_count = 0, clock = 0, trace = []\<rparr>"

definition get_request :: "string \<Rightarrow> request" where
  "get_request u = \<lparr>method = ''GET'', url = u, data = None\<rparr>"

section \<open>FMC: the registry\<close>

definition RESOURCE_TYPES :: "string list" where
  "RESOURCE_TYPES = [''object'', ''devices'', ''devicegroups'', ''policy'',
     ''assignment'', ''job'', ''audit'', ''deployment'']"

definition API_PATH :: "(string \<times> string) list" where
  "API_PATH = AList.update ''audit'' ''/api/fmc_platform/v1/domain/default/audit/''
     (map (\<lambda>res. (res, ''/api/fmc_config/v1/domain/default/'' @ res @ ''/'')) RESOURCE_TYPES)"

definition POLICY_TYPES :: "string list" where
  "POLICY_TYPES = [''accesspolicies'', ''filepolicies'', ''intrusionpolicies'',
     ''snmpalerts'', ''syslogalerts'']"

definition URL_OBJECT_TYPES :: "string list" where
  "URL_OBJECT_TYPES = [''urls'', ''urlgroups'']"

definition NETWORK_OBJECT_TYPES :: "string list" where
  "NETWORK_OBJECT_TYPES = [''hosts'', ''networks'', ''ranges'', ''networkgroups'']"

definition PORT_OBJECT_TYPES :: "string list" where
  "PORT_OBJECT_TYPES = [''icmpv4objects'', ''icmpv6objects'',
     ''protocolportobjects'', ''portobjectgroups'']"

definition VLAN_OBJECT_TYPES :: "string list" where
  "VLAN_OBJECT_TYPES = [''vlantags'', ''vlangrouptags'']"

definition REALM_USER_OBJECT_TYPES :: "string list" where
  "REALM_USER_OBJECT_TYPES = [''realmusers'', ''realmusergroups'']"

definition OBJECT_TYPES :: "string list" where
  "OBJECT_TYPES = [''anyprotocolportobjects'', ''applicationcategories'', ''realms'',
     ''continents'', ''applicationfilters'', ''applicationproductivities'', ''ports'',
     ''tunneltags'', ''applicationrisks'', ''applications'', ''applicationtags'',
     ''applicationtypes'', ''countries'', ''variablesets'', ''endpointdevicetypes'',
     ''geolocations'', ''isesecuritygrouptags'', ''networkaddresses'', ''securitygrouptags'',
     ''siurlfeeds'', ''siurllists'', ''securityzones'', ''urlcategories'']
     @ URL_OBJECT_TYPES @ VLAN_OBJECT_TYPES @ PORT_OBJECT_TYPES
     @ NETWORK_OBJECT_TYPES @ REALM_USER_OBJECT_TYPES"

definition RESOURCE_TREE :: "(string \<times> string list) list" where
  "RESOURCE_TREE = [(''object'', OBJECT_TYPES), (''policy'', POLICY_TYPES),
     (''devices'', [''devicerecords'']), (''devicegroups'', [''devicegrouprecords'']),
     (''assignment'', [''policyassignments'']), (''audit'', [''auditrecords'']),
     (''job'', [''taskstatuses'']),
     (''deployment'', [''deployabledevices'', ''deploymentrequests''])]"

text \<open>
  \<open>self.fmc._req\<close> as the table and object classes call it resolves, by the method
  resolution order, to \<open>RestClient._req\<close> of the \<open>rest\<close> module, which \<open>api.py\<close>
  imports and does not define: it is a parameter. The answer to a request may depend on every request made
  before it, so any deterministic server is covered. \<open>log\<close> keeps the requests made;
  \<open>obj_tables\<close> is the \<open>OrderedDict\<close> from an object type to the \<open>names\<close> of its table.
\<close>

type_synonym transport = "request list \<Rightarrow> request \<Rightarrow> response"

record fmc =
  fmc_url :: string
  log :: "request list"
  obj_tables :: "(string \<times> names) list"

definition fmc_req :: "transport \<Rightarrow> request \<Rightarrow> fmc \<Rightarrow> response \<times> fmc" where
  "fmc_req T r f = (T (log f) r, f\<lparr>log := log f @ [r]\<rparr>)"

text \<open>Python's truth value of an optional string: \<open>None\<close> and \<open>''\<close> are false.\<close>

fun truthy :: "string option \<Rightarrow> bool" where
  "truthy None = False"
| "truthy (Some s) = (s \<noteq> [])"

definition req_json ::
  "transport \<Rightarrow> string \<Rightarrow> string \<Rightarrow> string option \<Rightarrow> string option \<Rightarrow> fpjson option \<Rightarrow> fmc
   \<Rightarrow> response outcome \<times> fmc" where
  "req_json T resource type oid url0 data0 f =
     (case (if truthy oid
            then (case map_of API_PATH resource of
                    None \<Rightarrow> Raise KeyError
                  | Some path \<Rightarrow> Return (Some (fmc_url f @ path @ type @ ''/'' @ the oid)))
            else Return url0) of
        Return url1 \<Rightarrow>
          if truthy url1 then
            (case fmc_req T (get_request (the url1)) f of (resp, f') \<Rightarrow> (Return resp, f'))
          else
            (case data0 of
               Some d \<Rightarrow>
                 (case map_of API_PATH resource of
                    None \<Rightarrow> (Raise KeyError, f)
                  | Some path \<Rightarrow>
                      (case fmc_req T \<lparr>method = ''POST'', url = fmc_url f @ path @ type,
                                        data = Some d\<rparr> f of
                         (resp, f') \<Rightarrow> (Return resp, f')))
             | None \<Rightarrow> (Return Empty, f))
      | Raise e \<Rightarrow> (Raise e, f)
      | OutOfFuel \<Rightarrow> (OutOfFuel, f))"

text \<open>
  \<open>get_all_resource_instances\<close> is a generator; the model drains it and collects what it
  yields. The loop takes the "next" URL as the server gave it.
\<close>

fun get_all_loop ::
  "nat \<Rightarrow> transport \<Rightarrow> string \<Rightarrow> fpjson list \<Rightarrow> fmc \<Rightarrow> unit outcome \<times> fpjson list \<times> fmc" where
  "get_all_loop 0 T u ys f = (OutOfFuel, ys, f)"
| "get_all_loop (Suc n) T u ys f =
     (if u = [] then (Return (), ys, f)
      else
        (case fmc_req T (get_request u) f of
           (Empty, f') \<Rightarrow> (Return (), ys, f')
         | (Record _, f') \<Rightarrow> (Raise KeyError, ys, f')
         | (Listing resp, f') \<Rightarrow>
             if count (paging resp) = 0 then (Return (), ys, f')
             else
               (case next (paging resp) of
                  None \<Rightarrow> (Return (), ys @ items resp, f')
                | Some [] \<Rightarrow> (Raise IndexError, ys @ items resp, f')
                | Some (u' # _) \<Rightarrow> get_all_loop n T u' (ys @ items resp) f')))"

definition get_all_resource_instances ::
  "nat \<Rightarrow> transport \<Rightarrow> string \<Rightarrow> string \<Rightarrow> fmc \<Rightarrow> unit outcome \<times> fpjson list \<times> fmc" where
  "get_all_resource_instances fuel T resource type f =
     (if resource \<notin> set RESOURCE_TYPES then (Raise FMCError, [], f)
      else
        (case map_of RESOURCE_TREE resource of
           None \<Rightarrow> (Raise KeyError, [], f)
         | Some types \<Rightarrow>
             if type \<notin> set types then (Raise FMCError, [], f)
             else
               (case map_of API_PATH resource of
                  None \<Rightarrow> (Raise KeyError, [], f)
                | Some path \<Rightarrow>
                    get_all_loop fuel T (fmc_url f @ path @ type @ ''?expanded=true'') [] f)))"

section \<open>FPResourceTable\<close>

text \<open>The \<open>for obj_json in resp['items']\<close> loop of \<open>FPResourceTable.build\<close>.\<close>

fun rt_items :: "fpjson list \<Rightarrow> names \<Rightarrow> unit outcome \<times> names" where
  "rt_items [] ns = (Return (), ns)"
| "rt_items (obj_json # js) ns =
     (case j_id obj_json of
        None \<Rightarrow> (Raise KeyError, ns)
      | Some i \<Rightarrow> rt_items js (AList.update (j_name obj_json) i ns))"

fun rt_loop ::
  "nat \<Rightarrow> transport \<Rightarrow> string \<Rightarrow> names \<Rightarrow> fmc \<Rightarrow> unit outcome \<times> names \<times> fmc" where
  "rt_loop 0 T u ns f = (OutOfFuel, ns, f)"
| "rt_loop (Suc n) T u ns f =
     (if u = [] then (Return (), ns, f)
      else
        (case fmc_req T (get_request u) f of
           (Empty, f') \<Rightarrow> (Return (), ns, f')
         | (Record _, f') \<Rightarrow> (Raise KeyError, ns, f')
         | (Listing resp, f') \<Rightarrow>
             if count (paging resp) = 0 then (Return (), ns, f')
             else
               (case rt_items (items resp) ns of
                  (Return _, ns') \<Rightarrow>
                    (case next (paging resp) of
                       None \<Rightarrow> (Return (), ns', f')
                     | Some [] \<Rightarrow> (Raise IndexError, ns', f')
                     | Some (u' # _) \<Rightarrow>
                         rt_loop n T (if \<not> sublist ''expanded=true'' u'
                                      then u' @ ''&expanded=true'' else u') ns' f')
                | (x, ns') \<Rightarrow> (x, ns', f'))))"

definition FPResourceTable_build ::
  "nat \<Rightarrow> transport \<Rightarrow> string \<Rightarrow> string \<Rightarrow> names \<Rightarrow> fmc \<Rightarrow> unit outcome \<times> names \<times> fmc" where
  "FPResourceTable_build fuel T resource type ns f =
     (case map_of API_PATH resource of
        None \<Rightarrow> (Raise KeyError, ns, f)
      | Some path \<Rightarrow> rt_loop fuel T (fmc_url f @ path @ type @ ''?expanded=true'') ns f)"

text \<open>
  The items that \<open>FPResourceTable.build\<close> walks over, page after page, in order: the
  same loop without the cache.
\<close>

fun rt_drain :: "nat \<Rightarrow> transport \<Rightarrow> string \<Rightarrow> fmc \<Rightarrow> fpjson list" where
  "rt_drain 0 T u f = []"
| "rt_drain (Suc n) T u f =
     (if u = [] then []
      else
        (case fmc_req T (get_request u) f of
           (Listing resp, f') \<Rightarrow>
             if count (paging resp) = 0 then []
             else items resp @
               (case next (paging resp) of
                  Some (u' # _) \<Rightarrow>
                    rt_drain n T (if \<not> sublist ''expanded=true'' u'
                                  then u' @ ''&expanded=true'' else u') f'
                | _ \<Rightarrow> [])
         | _ \<Rightarrow> []))"

definition drained :: "nat \<Rightarrow> transport \<Rightarrow> string \<Rightarrow> string \<Rightarrow> fmc \<Rightarrow> fpjson list" where
  "drained fuel T resource type f =
     (case map_of API_PATH resource of
        None \<Rightarrow> []
      | Some path \<Rightarrow> rt_drain fuel T (fmc_url f @ path @ type @ ''?expanded=true'') f)"

section \<open>FPObjectTable\<close>

text \<open>\<open>str.lower()\<close> on the ASCII letters.\<close>

definition lower_char :: "char \<Rightarrow> char" where
  "lower_char c =
     (case map_of (zip ''ABCDEFGHIJKLMNOPQRSTUVWXYZ'' ''abcdefghijklmnopqrstuvwxyz'') c of
        Some l \<Rightarrow> l
      | None \<Rightarrow> c)"

definition lower :: "string \<Rightarrow> string" where
  "lower s = map lower_char s"

text \<open>
  \<open>add_child_first\<close> receives whatever \<open>_req_json\<close> returned: on the empty result
  \<open>obj_json.get\<close> fails, on a listing \<open>obj_json['name']\<close> does. The first argument is
  the number of stack frames left before Python's recursion limit; \<open>add_children\<close> is the
  \<open>for ch_item in obj_json["objects"]\<close> loop.
\<close>

fun add_child_first ::
    "nat \<Rightarrow> transport \<Rightarrow> string \<Rightarrow> string \<Rightarrow> response \<Rightarrow> names \<Rightarrow> fmc
     \<Rightarrow> unit outcome \<times> names \<times> fmc"
  and add_children ::
    "nat \<Rightarrow> transport \<Rightarrow> string \<Rightarrow> string \<Rightarrow> child list \<Rightarrow> names \<Rightarrow> fmc
     \<Rightarrow> unit outcome \<times> names \<times> fmc" where
  "add_child_first 0 T resource type obj_json ns f = (Raise RuntimeError, ns, f)"
| "add_child_first (Suc d) T resource type Empty ns f = (Raise AttributeError, ns, f)"
| "add_child_first (Suc d) T resource type (Listing l) ns f = (Raise KeyError, ns, f)"
| "add_child_first (Suc d) T resource type (Record obj_json) ns f =
     (case (case j_objects obj_json of
              None \<Rightarrow> (Return (), ns, f)
            | Some chs \<Rightarrow> add_children d T resource type chs ns f) of
        (Return _, ns', f') \<Rightarrow>
          if map_of ns' (j_name obj_json) = None then
            (case j_id obj_json of
               None \<Rightarrow> (Raise KeyError, ns', f')
             | Some i \<Rightarrow> (Return (), AList.update (j_name obj_json) i ns', f'))
          else (Return (), ns', f')
      | (x, ns', f') \<Rightarrow> (x, ns', f'))"
| "add_children d T resource type [] ns f = (Return (), ns, f)"
| "add_children d T resource type (ch_item # chs) ns f =
     (if type = lower (c_type ch_item) @ ''s'' then
        (case req_json T resource type (Some (c_id ch_item)) None None f of
           (Return ch_json, f') \<Rightarrow>
             (case add_child_first d T resource type ch_json ns f' of
                (Return _, ns', f'') \<Rightarrow> add_children d T resource type chs ns' f''
              | (x, ns', f'') \<Rightarrow> (x, ns', f''))
         | (Raise e, f') \<Rightarrow> (Raise e, ns, f')
         | (OutOfFuel, f') \<Rightarrow> (OutOfFuel, ns, f'))
      else add_children d T resource type chs ns f)"

text \<open>The \<open>for obj_json in resp['items']\<close> loop of \<open>FPObjectTable.build\<close>.\<close>

fun ot_items ::
  "nat \<Rightarrow> transport \<Rightarrow> string \<Rightarrow> string \<Rightarrow> fpjson list \<Rightarrow> names \<Rightarrow> fmc
   \<Rightarrow> unit outcome \<times> names \<times> fmc" where
  "ot_items d T resource type [] ns f = (Return (), ns, f)"
| "ot_items d T resource type (obj_json # js) ns f =
     (case add_child_first d T resource type (Record obj_json) ns f of
        (Return _, ns', f') \<Rightarrow> ot_items d T resource type js ns' f'
      | (x, ns', f') \<Rightarrow> (x, ns', f'))"

fun ot_loop ::
  "nat \<Rightarrow> nat \<Rightarrow> transport \<Rightarrow> string \<Rightarrow> string \<Rightarrow> string \<Rightarrow> names \<Rightarrow> fmc
   \<Rightarrow> unit outcome \<times> names \<times> fmc" where
  "ot_loop 0 d T resource type u ns f = (OutOfFuel, ns, f)"
| "ot_loop (Suc n) d T resource type u ns f =
     (if u = [] then (Return (), ns, f)
      else
        (case fmc_req T (get_request u) f of
           (Empty, f') \<Rightarrow> (Return (), ns, f')
         | (Record _, f') \<Rightarrow> (Raise KeyError, ns, f')
         | (Listing resp, f') \<Rightarrow>
             if count (paging resp) = 0 then (Return (), ns, f')
             else
               (case ot_items d T resource type (items resp) ns f' of
                  (Return _, ns', f'') \<Rightarrow>
                    (case next (paging resp) of
                       None \<Rightarrow> (Return (), ns', f'')
                     | Some [] \<Rightarrow> (Raise IndexError, ns', f'')
                     | Some (u' # _) \<Rightarrow>
                         ot_loop n d T resource type
                           (if \<not> sublist ''expanded=true'' u'
                            then u' @ ''&expanded=true'' else u') ns' f'')
                | (x, ns', f'') \<Rightarrow> (x, ns', f''))))"

definition FPObjectTable_build ::
  "nat \<Rightarrow> nat \<Rightarrow> transport \<Rightarrow> string \<Rightarrow> names \<Rightarrow> fmc \<Rightarrow> unit outcome \<times> names \<times> fmc" where
  "FPObjectTable_build fuel d T type ns f =
     (case map_of API_PATH ''object'' of
        None \<Rightarrow> (Raise KeyError, ns, f)
      | Some path \<Rightarrow>
          ot_loop fuel d T ''object'' type (fmc_url f @ path @ type @ ''?expanded=true'') ns f)"

section \<open>FPObject\<close>

text \<open>
  What an object holds in \<open>self.json\<close>: nothing yet (the attribute is not set),
  \<open>None\<close>, or what a request returned. \<open>o_type\<close> is \<open>self.type\<close>, \<open>None\<close> while
  the attribute is not set.
\<close>

datatype held = Unset | PyNone | Held response

record fpobject =
  o_type :: "string option"
  o_json :: held

text \<open>The properties \<open>name\<close>, \<open>id\<close> and \<open>url\<close> of \<open>FPResource\<close>; the empty result is
  the empty string, which cannot be indexed by a key.\<close>

fun obj_name :: "held \<Rightarrow> string outcome" where
  "obj_name Unset = Raise AttributeError"
| "obj_name PyNone = Raise TypeError"
| "obj_name (Held Empty) = Raise TypeError"
| "obj_name (Held (Listing l)) = Raise KeyError"
| "obj_name (Held (Record r)) = Return (j_name r)"

fun obj_id :: "held \<Rightarrow> string outcome" where
  "obj_id Unset = Raise AttributeError"
| "obj_id PyNone = Raise TypeError"
| "obj_id (Held Empty) = Raise TypeError"
| "obj_id (Held (Listing l)) = Raise KeyError"
| "obj_id (Held (Record r)) = (case j_id r of None \<Rightarrow> Raise KeyError | Some i \<Rightarrow> Return i)"

fun obj_url :: "held \<Rightarrow> string outcome" where
  "obj_url Unset = Raise AttributeError"
| "obj_url PyNone = Raise TypeError"
| "obj_url (Held Empty) = Raise TypeError"
| "obj_url (Held (Listing l)) = Raise KeyError"
| "obj_url (Held (Record r)) = (case j_links r of None \<Rightarrow> Raise KeyError | Some u \<Rightarrow> Return u)"

text \<open>
  \<open>FPObject.__init__\<close>. The \<open>obj\<close> branch (\<open>init_obj\<close>) works on a shallow copy of the
  other object's record: the nested references whose ids it rewrites (\<open>remap_ids\<close>) are
  shared with that record, so the constructor also returns the other object as it leaves
  it. \<open>init_fetch\<close> is the part after the \<open>if type and json:\<close> block. An exception
  leaves no new object behind.
\<close>

fun remap_ids :: "(string \<times> names) list \<Rightarrow> child list \<Rightarrow> unit outcome \<times> child list" where
  "remap_ids tables [] = (Return (), [])"
| "remap_ids tables (child_obj # chs) =
     (case map_of tables (lower (c_type child_obj) @ ''s'') of
        None \<Rightarrow> (Raise KeyError, child_obj # chs)
      | Some child_names \<Rightarrow>
          (case map_of child_names (c_name child_obj) of
             None \<Rightarrow> (Raise KeyError, child_obj # chs)
           | Some i \<Rightarrow>
               (case remap_ids tables chs of
                  (x, chs') \<Rightarrow> (x, child_obj\<lparr>c_id := i\<rparr> # chs'))))"

definition init_obj ::
  "fpobject \<Rightarrow> string option \<Rightarrow> fpjson option \<Rightarrow> fmc
   \<Rightarrow> (string \<times> string option \<times> fpjson option) outcome \<times> fpobject" where
  "init_obj obj oid1 data1 f =
     (case o_type obj of
        None \<Rightarrow> (Raise AttributeError, obj)
      | Some ty \<Rightarrow>
          (case obj_name (o_json obj) of
             Raise e \<Rightarrow> (Raise e, obj)
           | OutOfFuel \<Rightarrow> (OutOfFuel, obj)
           | Return nm \<Rightarrow>
               (case map_of (obj_tables f) ty of
                  None \<Rightarrow> (Raise KeyError, obj)
                | Some obj_names \<Rightarrow>
                    (case map_of obj_names nm of
                       Some i \<Rightarrow> (Return (ty, Some i, data1), obj)
                     | None \<Rightarrow>
                         (case o_json obj of
                            Held (Record r) \<Rightarrow>
                              if j_id r = None \<or> j_links r = None \<or> j_metadata r = None
                              then (Raise KeyError, obj)
                              else
                                (case j_objects r of
                                   None \<Rightarrow>
                                     (Return (ty, oid1,
                                        Some (r\<lparr>j_id := None, j_links := None,
                                                j_metadata := None\<rparr>)), obj)
                                 | Some chs \<Rightarrow>
                                     (case remap_ids (obj_tables f) chs of
                                        (Return _, chs') \<Rightarrow>
                                          (Return (ty, oid1,
                                             Some (r\<lparr>j_id := None, j_links := None,
                                                     j_metadata := None,
                                                     j_objects := Some chs'\<rparr>)),
                                           obj\<lparr>o_json := Held (Record (r\<lparr>j_objects := Some chs'\<rparr>))\<rparr>)
                                      | (Raise e, chs') \<Rightarrow>
                                          (Raise e,
                                           obj\<lparr>o_json := Held (Record (r\<lparr>j_objects := Some chs'\<rparr>))\<rparr>)
                                      | (OutOfFuel, chs') \<Rightarrow>
                                          (OutOfFuel,
                                           obj\<lparr>o_json := Held (Record (r\<lparr>j_objects := Some chs'\<rparr>))\<rparr>)))
                          | _ \<Rightarrow> (Raise TypeError, obj))))))"

definition init_fetch ::
  "transport \<Rightarrow> string option \<Rightarrow> string option \<Rightarrow> string option \<Rightarrow> string option
   \<Rightarrow> fpjson option \<Rightarrow> fpobject option \<Rightarrow> fmc
   \<Rightarrow> fpobject outcome \<times> fpobject option \<times> fmc" where
  "init_fetch T type0 oid0 name0 url0 data0 obj0 f =
     (case (case data0 of
              None \<Rightarrow> Return (type0, oid0)
            | Some d \<Rightarrow>
                (case map_of (obj_tables f) (lower (j_type d) @ ''s'') of
                   None \<Rightarrow> Raise KeyError
                 | Some obj_names \<Rightarrow>
                     Return (Some (lower (j_type d) @ ''s''),
                             (case map_of obj_names (j_name d) of
                                Some i \<Rightarrow> Some i
                              | None \<Rightarrow> oid0)))) of
        Raise e \<Rightarrow> (Raise e, obj0, f)
      | OutOfFuel \<Rightarrow> (OutOfFuel, obj0, f)
      | Return (type1, oid1) \<Rightarrow>
          (case (case obj0 of
                   None \<Rightarrow>
                     (Return (if type1 \<noteq> None \<and> the type1 \<in> set OBJECT_TYPES
                              then type1 else None, oid1, data0), None)
                 | Some obj \<Rightarrow>
                     (case init_obj obj oid1 data0 f of
                        (Return (ty, oid', data'), obj') \<Rightarrow>
                          (Return (Some ty, oid', data'), Some obj')
                      | (Raise e, obj') \<Rightarrow> (Raise e, Some obj')
                      | (OutOfFuel, obj') \<Rightarrow> (OutOfFuel, Some obj'))) of
             (Raise e, obj1) \<Rightarrow> (Raise e, obj1, f)
           | (OutOfFuel, obj1) \<Rightarrow> (OutOfFuel, obj1, f)
           | (Return (self_type, oid2, data2), obj1) \<Rightarrow>
               (case (case name0 of
                        None \<Rightarrow> Return oid2
                      | Some n \<Rightarrow>
                          (case self_type of
                             None \<Rightarrow> Raise AttributeError
                           | Some ty \<Rightarrow>
                               (case map_of (obj_tables f) ty of
                                  None \<Rightarrow> Raise KeyError
                                | Some obj_names \<Rightarrow>
                                    (case map_of obj_names n of
                                       None \<Rightarrow> Raise KeyError
                                     | Some i \<Rightarrow> Return (Some i))))) of
                  Raise e \<Rightarrow> (Raise e, obj1, f)
                | OutOfFuel \<Rightarrow> (OutOfFuel, obj1, f)
                | Return oid3 \<Rightarrow>
                    (case self_type of
                       None \<Rightarrow> (Raise AttributeError, obj1, f)
                     | Some ty \<Rightarrow>
                         (case req_json T ''object'' ty oid3 url0 data2 f of
                            (Raise e, f') \<Rightarrow> (Raise e, obj1, f')
                          | (OutOfFuel, f') \<Rightarrow> (OutOfFuel, obj1, f')
                          | (Return Empty, f') \<Rightarrow>
                              (case data2 of
                                 None \<Rightarrow> (Raise AttributeError, obj1, f')
                               | Some _ \<Rightarrow>
                                   (Return \<lparr>o_type = Some ty, o_json = PyNone\<rparr>, obj1, f'))
                          | (Return (Listing l), f') \<Rightarrow> (Raise KeyError, obj1, f')
                          | (Return (Record r), f') \<Rightarrow>
                              (case map_of (obj_tables f') ty of
                                 None \<Rightarrow> (Raise KeyError, obj1, f')
                               | Some obj_names \<Rightarrow>
                                   (case j_id r of
                                      None \<Rightarrow> (Raise KeyError, obj1, f')
                                    | Some i \<Rightarrow>
                                        (Return \<lparr>o_type = Some ty, o_json = Held (Record r)\<rparr>,
                                         obj1,
                                         f'\<lparr>obj_tables :=
                                              AList.update ty
                                                (AList.update (j_name r) i obj_names)
                                                (obj_tables f')\<rparr>))))))))"

definition FPObject_init ::
  "transport \<Rightarrow> string option \<Rightarrow> string option \<Rightarrow> string option \<Rightarrow> string option
   \<Rightarrow> fpjson option \<Rightarrow> fpjson option \<Rightarrow> fpobject option \<Rightarrow> fmc
   \<Rightarrow> fpobject outcome \<times> fpobject option \<times> fmc" where
  "FPObject_init T type0 oid0 name0 url0 json0 data0 obj0 f =
     (if \<not> (truthy oid0 \<or> truthy url0 \<or> data0 \<noteq> None \<or> obj0 \<noteq> None \<or> json0 \<noteq> None \<or>
             truthy name0)
      then (Return \<lparr>o_type = None, o_json = Unset\<rparr>, obj0, f)
      else if truthy type0 \<and> json0 \<noteq> None then
        (case map_of (obj_tables f) (the type0) of
           None \<Rightarrow> (Raise KeyError, obj0, f)
         | Some obj_names \<Rightarrow>
             (case j_id (the json0) of
                None \<Rightarrow> (Raise KeyError, obj0, f)
              | Some i \<Rightarrow>
                  (Return \<lparr>o_type = type0, o_json = Held (Record (the json0))\<rparr>, obj0,
                   f\<lparr>obj_tables :=
                        AList.update (the type0) (AList.update (j_name (the json0)) i obj_names)
                          (obj_tables f)\<rparr>)))
      else init_fetch T type0 oid0 name0 url0 data0 obj0 f)"

definition FPObject_update ::
  "transport \<Rightarrow> fpjson \<Rightarrow> fpobject \<Rightarrow> fmc \<Rightarrow> held outcome \<times> fpobject \<times> fmc" where
  "FPObject_update T data0 self f =
     (case o_type self of
        None \<Rightarrow> (Raise AttributeError, self, f)
      | Some _ \<Rightarrow>
          (case obj_name (o_json self) of
             Raise e \<Rightarrow> (Raise e, self, f)
           | OutOfFuel \<Rightarrow> (OutOfFuel, self, f)
           | Return _ \<Rightarrow>
               (case obj_url (o_json self) of
                  Raise e \<Rightarrow> (Raise e, self, f)
                | OutOfFuel \<Rightarrow> (OutOfFuel, self, f)
                | Return u \<Rightarrow>
                    (case fmc_req T \<lparr>method = ''PUT'', url = u, data = Some data0\<rparr> f of
                       (resp, f') \<Rightarrow>
                         if resp \<noteq> Empty
                         then (Return (Held resp), self\<lparr>o_json := Held resp\<rparr>, f')
                         else (Return (o_json self), self, f')))))"

definition FPObject_delete ::
  "transport \<Rightarrow> fpobject \<Rightarrow> fmc \<Rightarrow> response outcome \<times> fmc" where
  "FPObject_delete T self f =
     (case o_type self of
        None \<Rightarrow> (Raise AttributeError, f)
      | Some ty \<Rightarrow>
          (case obj_name (o_json self) of
             Raise e \<Rightarrow> (Raise e, f)
           | OutOfFuel \<Rightarrow> (OutOfFuel, f)
           | Return nm \<Rightarrow>
               (case obj_url (o_json self) of
                  Raise e \<Rightarrow> (Raise e, f)
                | OutOfFuel \<Rightarrow> (OutOfFuel, f)
                | Return u \<Rightarrow>
                    (case fmc_req T \<lparr>method = ''DELETE'', url = u, data = None\<rparr> f of
                       (resp, f') \<Rightarrow>
                         if resp \<noteq> Empty then
                           (case map_of (obj_tables f') ty of
                              None \<Rightarrow> (Raise KeyError, f')
                            | Some obj_names \<Rightarrow>
                                if map_of obj_names nm = None then (Raise KeyError, f')
                                else (Return resp,
                                      f'\<lparr>obj_tables :=
                                           AList.update ty (AList.delete nm obj_names)
                                             (obj_tables f')\<rparr>))
                         else (Return resp, f')))))"

text \<open>\<open>rename\<close> returns \<open>new_name\<close> when it is empty and \<open>None\<close> otherwise.\<close>

definition FPObject_rename ::
  "transport \<Rightarrow> string option \<Rightarrow> fpobject \<Rightarrow> fmc \<Rightarrow> string option outcome \<times> fpobject \<times> fmc" where
  "FPObject_rename T new_name self f =
     (if \<not> truthy new_name then (Return new_name, self, f)
      else
        (case o_json self of
           Held (Record r) \<Rightarrow>
             if j_links r = None \<or> j_metadata r = None then (Raise KeyError, self, f)
             else
               (case FPObject_update T
                       (r\<lparr>j_links := None, j_metadata := None, j_name := the new_name\<rparr>) self f of
                  (Return _, self', f') \<Rightarrow>
                    (case obj_name (o_json self') of
                       Raise e \<Rightarrow> (Raise e, self', f')
                     | OutOfFuel \<Rightarrow> (OutOfFuel, self', f')
                     | Return nm \<Rightarrow>
                         if nm = the new_name then
                           (case map_of (obj_tables f') (the (o_type self')) of
                              None \<Rightarrow> (Raise KeyError, self', f')
                            | Some obj_names \<Rightarrow>
                                if map_of obj_names (j_name r) = None
                                then (Raise KeyError, self', f')
                                else
                                  (case obj_id (o_json self') of
                                     Raise e \<Rightarrow>
                                       (Raise e, self',
                                        f'\<lparr>obj_tables :=
                                             AList.update (the (o_type self'))
                                               (AList.delete (j_name r) obj_names)
                                               (obj_tables f')\<rparr>)
                                   | OutOfFuel \<Rightarrow> (OutOfFuel, self', f')
                                   | Return i \<Rightarrow>
                                       (Return None, self',
                                        f'\<lparr>obj_tables :=
                                             AList.update (the (o_type self'))
                                               (AList.update nm i
                                                  (AList.delete (j_name r) obj_names))
                                               (obj_tables f')\<rparr>)))
                         else (Return None, self', f'))
                | (Raise e, self', f') \<Rightarrow> (Raise e, self', f')
                | (OutOfFuel, self', f') \<Rightarrow> (OutOfFuel, self', f'))
         | h \<Rightarrow>
             (case obj_name h of
                Raise e \<Rightarrow> (Raise e, self, f)
              | _ \<Rightarrow> (Raise KeyError, self, f))))"

text \<open>The \<open>for obj_child in obj_children\<close> loop of \<open>remove_child\<close>: the children kept so
  far and \<open>child_type\<close>.\<close>

fun remove_loop :: "string \<Rightarrow> child list \<Rightarrow> child list \<times> string \<Rightarrow> child list \<times> string" where
  "remove_loop child_name [] acc = acc"
| "remove_loop child_name (obj_child # cs) (kept, child_type) =
     (if c_name obj_child \<noteq> child_name
      then remove_loop child_name cs (kept @ [obj_child], child_type)
      else remove_loop child_name cs (kept, c_type obj_child))"

definition FPObject_remove_child ::
  "transport \<Rightarrow> string \<Rightarrow> fpobject \<Rightarrow> fmc \<Rightarrow> unit outcome \<times> fpobject \<times> fmc" where
  "FPObject_remove_child T child_name self f =
     (case obj_url (o_json self) of
        Raise e \<Rightarrow> (Raise e, self, f)
      | OutOfFuel \<Rightarrow> (OutOfFuel, self, f)
      | Return u \<Rightarrow>
          (case fmc_req T (get_request u) f of
             (Empty, f') \<Rightarrow> (Raise AttributeError, self\<lparr>o_json := Held Empty\<rparr>, f')
           | (Listing l, f') \<Rightarrow> (Raise KeyError, self\<lparr>o_json := Held (Listing l)\<rparr>, f')
           | (Record r, f') \<Rightarrow>
               (let self' = self\<lparr>o_json := Held (Record r)\<rparr> in
                if j_links r = None \<or> j_metadata r = None then (Raise KeyError, self', f')
                else
                  (case j_objects r of
                     None \<Rightarrow> (Raise KeyError, self', f')
                   | Some obj_children \<Rightarrow>
                       (case remove_loop child_name obj_children ([], []) of
                          (kept, child_type) \<Rightarrow>
                            if child_type \<noteq> [] then
                              (case FPObject_update T
                                      (r\<lparr>j_links := None, j_metadata := None,
                                         j_objects := Some kept\<rparr>) self' f' of
                                 (Return _, self'', f'') \<Rightarrow> (Return (), self'', f'')
                               | (Raise e, self'', f'') \<Rightarrow> (Raise e, self'', f'')
                               | (OutOfFuel, self'', f'') \<Rightarrow> (OutOfFuel, self'', f''))
                            else (Return (), self', f'))))))"

text \<open>Position of a name in the ordered cache (its length when the name is absent).\<close>

definition index_of :: "string \<Rightarrow> names \<Rightarrow> nat" where
  "index_of k ns = length (takeWhile (\<lambda>e. fst e \<noteq> k) ns)"

section \<open>What a build works through\<close>

text \<open>
  For a server \<open>g\<close> whose answers do not change: the records \<open>add_child_first\<close> is
  called on, in the order in which the calls reach their insertion step (nested children
  of the table's own type first, then the record itself). \<open>pre\<close> is the URL a nested
  reference is fetched at, less its id. It is the recursion of \<open>add_child_first\<close>
  without the cache; \<open>page_visits\<close> is the same for the page loop of \<open>build()\<close>.
\<close>

fun visits :: "nat \<Rightarrow> (request \<Rightarrow> response) \<Rightarrow> string \<Rightarrow> string \<Rightarrow> response \<Rightarrow> fpjson list"
  and child_visits ::
    "nat \<Rightarrow> (request \<Rightarrow> response) \<Rightarrow> string \<Rightarrow> string \<Rightarrow> child list \<Rightarrow> fpjson list" where
  "visits 0 g pre type obj_json = []"
| "visits (Suc d) g pre type Empty = []"
| "visits (Suc d) g pre type (Listing l) = []"
| "visits (Suc d) g pre type (Record obj_json) =
     (case j_objects obj_json of
        None \<Rightarrow> []
      | Some chs \<Rightarrow> child_visits d g pre type chs) @ [obj_json]"
| "child_visits d g pre type [] = []"
| "child_visits d g pre type (ch_item # chs) =
     (if type = lower (c_type ch_item) @ ''s''
      then visits d g pre type
             (if c_id ch_item = [] then Empty else g (get_request (pre @ c_id ch_item)))
      else [])
     @ child_visits d g pre type chs"

fun page_visits ::
  "nat \<Rightarrow> nat \<Rightarrow> (request \<Rightarrow> response) \<Rightarrow> string \<Rightarrow> string \<Rightarrow> string \<Rightarrow> fpjson list" where
  "page_visits 0 d g pre type u = []"
| "page_visits (Suc n) d g pre type u =
     (if u = [] then []
      else
        (case g (get_request u) of
           Listing resp \<Rightarrow>
             if count (paging resp) = 0 then []
             else concat (map (\<lambda>obj_json. visits d g pre type (Record obj_json)) (items resp)) @
               (case next (paging resp) of
                  Some (u' # _) \<Rightarrow>
                    page_visits n d g pre type
                      (if \<not> sublist ''expanded=true'' u' then u' @ ''&expanded=true'' else u')
                | _ \<Rightarrow> [])
         | _ \<Rightarrow> []))"

definition build_visits ::
  "nat \<Rightarrow> nat \<Rightarrow> (request \<Rightarrow> response) \<Rightarrow> string \<Rightarrow> string \<Rightarrow> fpjson list" where
  "build_visits fuel d g base type =
     page_visits fuel d g (base @ ''/api/fmc_config/v1/domain/default/object/'' @ type @ ''/'')
       type (base @ ''/api/fmc_config/v1/domain/default/object/'' @ type @ ''?expanded=true'')"

text \<open>
  Insertion as the spec words it: going through the records in order, a \<open>name \<rightarrow> id\<close>
  pair is put at the end of the cache only if the name is not already present. The result
  is \<open>None\<close> when a record that would be inserted carries no id.
\<close>

fun first_seen :: "fpjson list \<Rightarrow> names \<Rightarrow> names option" where
  "first_seen [] ns = Some ns"
| "first_seen (obj_json # js) ns =
     (if map_of ns (j_name obj_json) = None then
        (case j_id obj_json of
           None \<Rightarrow> None
         | Some i \<Rightarrow> first_seen js (ns @ [(j_name obj_json, i)]))
      else first_seen js ns)"

text \<open>
  Records of the same name have the same nested references. The ordered cache \<open>ns\<close> is
  child-first for the records \<open>V\<close>: for every record of \<open>V\<close> whose name is in the cache,
  each nested reference of the table's own type can be fetched and the fetched child's
  name sits at a smaller index than the parent's.
\<close>

definition same_children :: "fpjson list \<Rightarrow> bool" where
  "same_children V \<longleftrightarrow>
     (\<forall>p \<in> set V. \<forall>q \<in> set V. j_name p = j_name q \<longrightarrow> j_objects p = j_objects q)"

definition child_first ::
  "(request \<Rightarrow> response) \<Rightarrow> fpjson list \<Rightarrow> string \<Rightarrow> string \<Rightarrow> names \<Rightarrow> bool" where
  "child_first g V pre ty ns \<longleftrightarrow>
     (\<forall>p \<in> set V. \<forall>chs c. j_name p \<in> fst ` set ns \<longrightarrow> j_objects p = Some chs \<longrightarrow>
        c \<in> set chs \<longrightarrow> ty = lower (c_type c) @ ''s'' \<longrightarrow>
        (\<exists>ch. g (get_request (pre @ c_id c)) = Record ch \<and>
              index_of (j_name ch) ns < index_of (j_name p) ns))"

text \<open>The keys of an ordered cache after the names \<open>ks\<close> were assigned one by one: a name
  already listed keeps its place, a new one goes to the end.\<close>

fun key_order :: "string list \<Rightarrow> string list \<Rightarrow> string list" where
  "key_order [] keys = keys"
| "key_order (k # ks) keys = key_order ks (if k \<in> set keys then keys else keys @ [k])"

section \<open>An example server\<close>

text \<open>Two nested network groups: \<open>G1\<close> contains \<open>G2\<close> and a host, \<open>G2\<close> contains a host.
  The listing gives the parent first.\<close>

definition example_child :: "string \<Rightarrow> string \<Rightarrow> string \<Rightarrow> child" where
  "example_child n i t = \<lparr>c_id = i, c_name = n, c_overridable = False, c_type = t\<rparr>"

definition example_record :: "string \<Rightarrow> string \<Rightarrow> string \<Rightarrow> child list option \<Rightarrow> fpjson" where
  "example_record n i t chs =
     \<lparr>j_name = n, j_id = Some i, j_type = t, j_overridable = False,
      j_links = Some (''https://fmc/api/fmc_config/v1/domain/default/object/'' @ lower t @ ''s/'' @ i),
      j_metadata = Some ''m'', j_objects = chs, j_body = ''''\<rparr>"

definition inner_group :: fpjson where
  "inner_group = example_record ''G2'' ''2'' ''NetworkGroup'' (Some [example_child ''H2'' ''h2'' ''Host''])"

definition outer_group :: fpjson where
  "outer_group = example_record ''G1'' ''1'' ''NetworkGroup''
     (Some [example_child ''G2'' ''2'' ''NetworkGroup'', example_child ''H1'' ''h1'' ''Host''])"

definition example_server :: "request \<Rightarrow> response" where
  "example_server r =
     (if url r = ''https://fmc/api/fmc_config/v1/domain/default/object/networkgroups?expanded=true''
      then Listing \<lparr>items = [outer_group, inner_group], paging = \<lparr>count = 2, next = None\<rparr>\<rparr>
      else if url r = ''https://fmc/api/fmc_config/v1/domain/default/object/networkgroups/2''
      then Record inner_group
      else Empty)"

definition example_fmc :: fmc where
  "example_fmc = \<lparr>fmc_url = ''https://fmc'', log = [],
                   obj_tables = map (\<lambda>obj_type. (obj_type, [])) OBJECT_TYPES\<rparr>"

text \<open>A listing with the same name twice, and a listing of two pages whose "next" link
  has lost the \<open>expanded\<close> flag.\<close>

definition duplicate_server :: "request \<Rightarrow> response" where
  "duplicate_server r =
     (if url r = ''https://fmc/api/fmc_config/v1/domain/default/object/hosts?expanded=true''
      then Listing \<lparr>items = [example_record ''H1'' ''1'' ''Host'' None,
                              example_record ''H1'' ''2'' ''Host'' None],
                     paging = \<lparr>count = 2, next = None\<rparr>\<rparr>
      else Empty)"

definition paged_server :: "request \<Rightarrow> response" where
  "paged_server r =
     (if url r = ''https://fmc/api/fmc_config/v1/domain/default/object/hosts?expanded=true''
      then Listing \<lparr>items = [example_record ''H1'' ''1'' ''Host'' None],
                     paging = \<lparr>count = 2, next = Some [''https://fmc/api/fmc_config/v1/domain/default/object/hosts?offset=1&limit=1'']\<rparr>\<rparr>
      else if url r = ''https://fmc/api/fmc_config/v1/domain/default/object/hosts?offset=1&limit=1''
            \<or> url r = ''https://fmc/api/fmc_config/v1/domain/default/object/hosts?offset=1&limit=1&expanded=true''
      then Listing \<lparr>items = [example_record ''H2'' ''2'' ''Host'' None],
                     paging = \<lparr>count = 2, next = None\<rparr>\<rparr>
      else Empty)"

text \<open>
  A host: the payload that creates it and the record the server keeps. \<open>crud_server\<close>
  creates on POST, echoes the payload on PUT, answers the first DELETE of a URL with a
  record and a repeated one with the empty result, and serves the outer group and the
  host on GET. \<open>stale_server\<close> serves the outer group after \<open>G2\<close> was taken out of it.
\<close>

definition host_payload :: fpjson where
  "host_payload = \<lparr>j_name = ''H1'', j_id = None, j_type = ''Host'', j_overridable = False,
      j_links = None, j_metadata = None, j_objects = None, j_body = ''10.0.0.1''\<rparr>"

definition host_record :: fpjson where
  "host_record = host_payload\<lparr>j_id := Some ''h1'',
      j_links := Some ''https://fmc/api/fmc_config/v1/domain/default/object/hosts/h1'',
      j_metadata := Some ''m''\<rparr>"

definition host_object :: fpobject where
  "host_object = \<lparr>o_type = Some ''hosts'', o_json = Held (Record host_record)\<rparr>"

definition outer_object :: fpobject where
  "outer_object = \<lparr>o_type = Some ''networkgroups'', o_json = Held (Record outer_group)\<rparr>"

definition crud_server :: transport where
  "crud_server h r =
     (if method r = ''POST'' then
        (case data r of
           None \<Rightarrow> Empty
         | Some d \<Rightarrow> Record (d\<lparr>j_id := Some ''h1'', j_links := Some (url r @ ''/h1''),
                                j_metadata := Some ''m''\<rparr>))
      else if method r = ''PUT'' then
        (case data r of
           None \<Rightarrow> Empty
         | Some d \<Rightarrow> Record (d\<lparr>j_links := Some (url r), j_metadata := Some ''m''\<rparr>))
      else if method r = ''DELETE'' then (if r \<in> set h then Empty else Record host_record)
      else if url r = ''https://fmc/api/fmc_config/v1/domain/default/object/networkgroups/1''
      then Record outer_group
      else if url r = ''https://fmc/api/fmc_config/v1/domain/default/object/hosts/h1''
      then Record host_record
      else Empty)"

definition stale_server :: "request \<Rightarrow> response" where
  "stale_server r =
     (if method r = ''GET'' \<and>
         url r = ''https://fmc/api/fmc_config/v1/domain/default/object/networkgroups/1''
      then Record (outer_group\<lparr>j_objects := Some [example_child ''H1'' ''h1'' ''Host'']\<rparr>)
      else Empty)"

definition delete_request :: "string \<Rightarrow> request" where
  "delete_request u = \<lparr>method = ''DELETE'', url = u, data = None\<rparr>"

definition fmc_with_host :: fmc where
  "fmc_with_host = example_fmc\<lparr>obj_tables :=
     AList.update ''hosts'' [(''H1'', ''h1'')] (obj_tables example_fmc)\<rparr>"

definition put_request :: "string \<Rightarrow> fpjson \<Rightarrow> request" where
  "put_request u d = \<lparr>method = ''PUT'', url = u, data = Some d\<rparr>"

definition fmc_with_groups :: fmc where
  "fmc_with_groups = example_fmc\<lparr>obj_tables :=
     AList.update ''networkgroups'' [(''G1'', ''old''), (''G2'', ''2'')] (obj_tables example_fmc)\<rparr>"


definition renumbering_server :: transport where
  "renumbering_server h r =
     (if method r = ''PUT'' then
        (case data r of
           None \<Rightarrow> Empty
         | Some d \<Rightarrow> Record (d\<lparr>j_id := Some ''zzz'', j_links := Some (url r),
                                j_metadata := Some ''m''\<rparr>))
      else Empty)"


definition repeat_server :: "request \<Rightarrow> response" where
  "repeat_server r =
     (if url r = ''https://fmc/api/fmc_config/v1/domain/default/object/hosts?expanded=true''
      then Listing \<lparr>items = [example_record ''H1'' ''1'' ''Host'' None,
                              example_record ''H2'' ''7'' ''Host'' None,
                              example_record ''H1'' ''2'' ''Host'' None],
                     paging = \<lparr>count = 3, next = None\<rparr>\<rparr>
      else Empty)"

section \<open>Properties of the request counter\<close>

lemma sleeps_append: "sleeps (xs @ ys) = sleeps xs @ sleeps ys"
  by (induction xs rule: sleeps.induct) simp_all

lemma rate_limit_below:
  "0 \<le> req_count c \<Longrightarrow> req_count c + 1 < 120 \<Longrightarrow>
   rate_limit c = c\<lparr>req_count := req_count c + 1,
                     req_time := (if req_count c = 0 then clock c else req_time c)\<rparr>"
  by (auto simp: rate_limit_def Let_def)

lemma issue_all_below:
  "0 \<le> req_count c \<Longrightarrow> req_count c + int (length rs) < 120 \<Longrightarrow>
   req_count (issue_all rs c) = req_count c + int (length rs) \<and>
   sleeps (trace (issue_all rs c)) = sleeps (trace c) \<and>
   clock (issue_all rs c) = clock c + sum_list (map fst rs) \<and>
   req_time (issue_all rs c) =
     (if req_count c = 0 \<and> rs \<noteq> [] then clock c + fst (hd rs) else req_time c)"
proof (induction rs arbitrary: c)
  case Nil
  then show ?case by simp
next
  case (Cons a rs)
  obtain dt r where a: "a = (dt, r)" by (cases a)
  let ?c1 = "snd (FMCClient_req (url r) (Some (method r)) (data r) (c\<lparr>clock := clock c + dt\<rparr>))"
  have c1: "req_count ?c1 = req_count c + 1" "sleeps (trace ?c1) = sleeps (trace c)"
     "clock ?c1 = clock c + dt"
     "req_time ?c1 = (if req_count c = 0 then clock c + dt else req_time c)"
    using Cons.prems by (auto simp: FMCClient_req_def rate_limit_below Let_def sleeps_append)
  have "0 \<le> req_count ?c1" "req_count ?c1 + int (length rs) < 120"
    using Cons.prems c1 by auto
  from Cons.IH[OF this] show ?case using c1 Cons.prems by (auto simp: a)
qed

lemma rate_limit_at_120:
  "req_count c = 119 \<Longrightarrow> clock c - req_time c \<le> 60 \<Longrightarrow>
   rate_limit c = c\<lparr>clock := clock c + (60 - (clock c - req_time c) + 1),
                     req_count := 1,
                     req_time := clock c + (60 - (clock c - req_time c) + 1),
                     trace := trace c @ [Sleep (60 - (clock c - req_time c) + 1)]\<rparr>"
  by (simp add: rate_limit_def Let_def sleep_def)

text \<open>
  C3 (as the code has it). The counter is compared with \<open>req_count < 120\<close> after it is
  incremented, so a window holds 119 requests: from a fresh client the first 119 requests
  never sleep, whatever time passes between them, and the window starts at the first one.
  If the 120th request comes at most 60 seconds after the first, it sleeps for the rest of
  the 60 seconds plus one second before it is issued, the counter restarts at 1 and the
  window restarts at the time after the sleep.
\<close>

theorem rate_limit_window:
  assumes "req_count c = 0"
    and "length rs = 118"
    and "c' = issue_all ((dt0, r0) # rs) c"
    and "m \<in> set [''GET'', ''POST'', ''PUT'', ''DELETE'']"
    and "time_diff = clock c' + dt - req_time c'"
    and "time_diff \<le> 60"
  shows "sleeps (trace c') = sleeps (trace c) \<and> req_count c' = 119 \<and>
         req_time c' = clock c + dt0 \<and>
         FMCClient_req u (Some m) d (c'\<lparr>clock := clock c' + dt\<rparr>) =
           (Return (),
            c'\<lparr>clock := clock c' + dt + (60 - time_diff + 1),
               req_count := 1,
               req_time := clock c' + dt + (60 - time_diff + 1),
               trace := trace c' @ [Sleep (60 - time_diff + 1),
                                    Issue \<lparr>method = m, url = u, data = d\<rparr>]\<rparr>)"
proof -
  have b: "req_count c' = 119" "sleeps (trace c') = sleeps (trace c)"
    "req_time c' = clock c + dt0"
    using issue_all_below[of c "(dt0, r0) # rs"] assms(1,2,3) by simp_all
  let ?c = "c'\<lparr>clock := clock c' + dt\<rparr>"
  have "req_count ?c = 119" "clock ?c - req_time ?c \<le> 60"
    using b assms(5,6) by simp_all
  from rate_limit_at_120[OF this] assms(4,5) b show ?thesis
    by (simp add: FMCClient_req_def Let_def)
qed

theorem rate_limit_window_witness:
  "sleeps (trace (issue_all (replicate 119 (0, get_request ''u'')) fresh_client)) = [] \<and>
   sleeps (trace (snd (FMCClient_req ''u'' (Some ''GET'') None
      (issue_all (replicate 119 (0, get_request ''u'')) fresh_client)))) = [61]"
proof -
  let ?rs = "replicate 118 (0::real, get_request ''u'')"
  let ?c' = "issue_all ((0, get_request ''u'') # ?rs) fresh_client"
  have eq: "replicate 119 (0::real, get_request ''u'') = (0, get_request ''u'') # ?rs"
    by (simp add: numeral_eq_Suc)
  have ck: "clock ?c' = 0" "req_time ?c' = 0"
    using issue_all_below[of fresh_client "(0, get_request ''u'') # ?rs"]
    by (simp_all add: fresh_client_def sum_list_replicate del: issue_all.simps)
  have "sleeps (trace ?c') = sleeps (trace fresh_client) \<and> req_count ?c' = 119 \<and>
        req_time ?c' = clock fresh_client + 0 \<and>
        FMCClient_req ''u'' (Some ''GET'') None (?c'\<lparr>clock := clock ?c' + 0\<rparr>) =
          (Return (),
           ?c'\<lparr>clock := clock ?c' + 0 + (60 - 0 + 1), req_count := 1,
               req_time := clock ?c' + 0 + (60 - 0 + 1),
               trace := trace ?c' @ [Sleep (60 - 0 + 1),
                                     Issue \<lparr>method = ''GET'', url = ''u'', data = None\<rparr>]\<rparr>)"
    by (rule rate_limit_window[where c = fresh_client and rs = ?rs and dt = 0])
       (simp_all add: fresh_client_def ck[unfolded fresh_client_def] del: issue_all.simps)
  then show ?thesis
    by (simp add: eq fresh_client_def sleeps_append del: issue_all.simps)
qed

text \<open>
  C3 as stated fails: of 120 requests issued at the same instant by a fresh client, one
  (the 120th) sleeps, and for 61 seconds.
\<close>

theorem rate_limit_120_counterexample:
  "sleeps (trace (issue_all (replicate 120 (0, get_request ''u'')) fresh_client)) = [61]"
  by code_simp

section \<open>Properties of the ordered cache\<close>

lemma index_of_le: "index_of k ns \<le> length ns"
  by (simp add: index_of_def length_takeWhile_le)

lemma index_of_less_iff: "index_of k ns < length ns \<longleftrightarrow> k \<in> fst ` set ns"
  unfolding index_of_def by (induction ns) auto

lemma index_of_append_in: "k \<in> fst ` set ns \<Longrightarrow> index_of k (ns @ xs) = index_of k ns"
  unfolding index_of_def by (induction ns) auto

lemma index_of_append_new: "k \<notin> fst ` set ns \<Longrightarrow> index_of k (ns @ [(k, v)]) = length ns"
  unfolding index_of_def by (induction ns) auto

lemma update_append: "map_of ns k = None \<Longrightarrow> AList.update k v ns = ns @ [(k, v)]"
  by (induction ns) (auto split: if_splits)

lemma req_json_oid:
  "req_json T res ty (Some i) None None f =
     (if i = [] then (Return Empty, f)
      else case map_of API_PATH res of
             None \<Rightarrow> (Raise KeyError, f)
           | Some path \<Rightarrow>
               (Return (T (log f) (get_request (fmc_url f @ path @ ty @ ''/'' @ i))),
                f\<lparr>log := log f @ [get_request (fmc_url f @ path @ ty @ ''/'' @ i)]\<rparr>))"
  by (simp add: req_json_def fmc_req_def split: option.splits)

lemma req_json_url:
  "req_json T res ty oid u dat f = (x, f') \<Longrightarrow>
     fmc_url f' = fmc_url f \<and> obj_tables f' = obj_tables f"
  by (auto simp: req_json_def fmc_req_def split: option.splits if_splits outcome.splits)

lemma add_frame:
  "add_child_first d T res ty r ns f = (x, ns', f') \<Longrightarrow>
     (\<exists>xs. ns' = ns @ xs) \<and> fmc_url f' = fmc_url f"
  "add_children d T res ty chs ns f = (x, ns', f') \<Longrightarrow>
     (\<exists>xs. ns' = ns @ xs) \<and> fmc_url f' = fmc_url f"
proof (induction d T res ty r ns f and d T res ty chs ns f arbitrary: x ns' f' and x ns' f'
       rule: add_child_first_add_children.induct)
  case (1 T resource type obj_json ns f)
  then show ?case by simp
next
  case (2 d T resource type ns f)
  then show ?case by simp
next
  case (3 d T resource type l ns f)
  then show ?case by simp
next
  case (4 d T resource type obj_json ns f)
  show ?case
  proof (cases "j_objects obj_json")
    case None
    with 4(2) show ?thesis
      by (auto simp: update_append split: if_splits option.splits)
  next
    case (Some chs)
    obtain y ns1 f1 where r: "add_children d T resource type chs ns f = (y, ns1, f1)"
      by (metis prod_cases3)
    from 4(1)[OF Some r] have a: "\<exists>xs. ns1 = ns @ xs" "fmc_url f1 = fmc_url f" by auto
    from 4(2) Some r a show ?thesis
      by (auto simp: update_append split: if_splits option.splits outcome.splits)
  qed
next
  case (5 d T resource type ns f)
  then show ?case by simp
next
  case (6 d T resource type ch_item chs ns f)
  show ?case
  proof (cases "type = lower (c_type ch_item) @ ''s''")
    case False
    with 6(3)[OF False] 6(4) show ?thesis by simp
  next
    case True
    obtain y f1 where q: "req_json T resource type (Some (c_id ch_item)) None None f = (y, f1)"
      by (metis prod.exhaust)
    have u1: "fmc_url f1 = fmc_url f" using req_json_url[OF q] by simp
    show ?thesis
    proof (cases y)
      case (Return ch_json)
      obtain z ns1 f2 where r: "add_child_first d T resource type ch_json ns f1 = (z, ns1, f2)"
        by (metis prod_cases3)
      from 6(1)[OF True q[symmetric] Return r] have a: "\<exists>xs. ns1 = ns @ xs" "fmc_url f2 = fmc_url f1"
        by auto
      show ?thesis
      proof (cases z)
        case (Return u)
        from 6(4) True q \<open>y = Return ch_json\<close> r Return
        have "add_children d T resource type chs ns1 f2 = (x, ns', f')" by simp
        from 6(2)[OF True q[symmetric] \<open>y = Return ch_json\<close> r[symmetric] Return refl this] a u1
        show ?thesis by auto
      next
        case (Raise e)
        with 6(4) True q \<open>y = Return ch_json\<close> r a u1 show ?thesis by auto
      next
        case OutOfFuel
        with 6(4) True q \<open>y = Return ch_json\<close> r a u1 show ?thesis by auto
      qed
    next
      case (Raise e)
      with 6(4) True q u1 show ?thesis by auto
    next
      case OutOfFuel
      with 6(4) True q u1 show ?thesis by auto
    qed
  qed
qed

lemma index_less_in: "index_of a ns < index_of b ns \<Longrightarrow> a \<in> fst ` set ns"
  using index_of_le[of b ns] index_of_less_iff[of a ns] by simp

lemma add_child_first_Return:
  "add_child_first d T res ty r ns f = (Return u, ns', f') \<Longrightarrow> \<exists>d' j. d = Suc d' \<and> r = Record j"
  by (cases d; cases r) auto

lemma ot_items_frame:
  "ot_items d T res ty js ns f = (x, ns', f') \<Longrightarrow> (\<exists>xs. ns' = ns @ xs) \<and> fmc_url f' = fmc_url f"
proof (induction js arbitrary: ns f)
  case Nil
  then show ?case by simp
next
  case (Cons j js)
  obtain y ns1 f1 where r: "add_child_first d T res ty (Record j) ns f = (y, ns1, f1)"
    by (metis prod_cases3)
  from add_frame(1)[OF r] have a: "\<exists>xs. ns1 = ns @ xs" "fmc_url f1 = fmc_url f" by auto
  show ?case
  proof (cases y)
    case (Return v)
    with Cons.prems r have "ot_items d T res ty js ns1 f1 = (x, ns', f')" by simp
    from Cons.IH[OF this] a show ?thesis by auto
  next
    case (Raise e)
    with Cons.prems r a show ?thesis by auto
  next
    case OutOfFuel
    with Cons.prems r a show ?thesis by auto
  qed
qed

lemma fmc_req_url: "fmc_req T r f = (resp, f') \<Longrightarrow> fmc_url f' = fmc_url f"
  by (auto simp: fmc_req_def)

lemma API_PATH_object: "map_of API_PATH ''object'' = Some ''/api/fmc_config/v1/domain/default/object/''"
  by (simp add: API_PATH_def RESOURCE_TYPES_def)


lemma update_distinct_new:
  "distinct (map fst ns) \<Longrightarrow> map_of ns k = None \<Longrightarrow> distinct (map fst (ns @ [(k, v)]))"
  by (auto simp: map_of_eq_None_iff)









lemma example_build:
  "FPObjectTable_build 5 5 (\<lambda>h. example_server) ''networkgroups'' [] example_fmc =
     (Return (), [(''G2'', ''2''), (''G1'', ''1'')],
      example_fmc\<lparr>log :=
        [get_request ''https://fmc/api/fmc_config/v1/domain/default/object/networkgroups?expanded=true'',
         get_request ''https://fmc/api/fmc_config/v1/domain/default/object/networkgroups/2'']\<rparr>)"
  by code_simp

lemma first_seen_append:
  "first_seen (xs @ ys) ns = (case first_seen xs ns of None \<Rightarrow> None | Some ns1 \<Rightarrow> first_seen ys ns1)"
  by (induction xs arbitrary: ns) (auto split: option.splits)


lemma first_seen_prefix: "first_seen js ns = Some ns' \<Longrightarrow> \<exists>xs. ns' = ns @ xs"
proof (induction js arbitrary: ns)
  case Nil
  then show ?case by simp
next
  case (Cons x xs)
  show ?case
  proof (cases "map_of ns (j_name x) = None")
    case True
    with Cons.prems obtain i where "first_seen xs (ns @ [(j_name x, i)]) = Some ns'"
      by (auto split: option.splits)
    from Cons.IH[OF this] show ?thesis by auto
  next
    case False
    with Cons.prems have "first_seen xs ns = Some ns'" by simp
    from Cons.IH[OF this] show ?thesis .
  qed
qed

lemma first_seen_keys:
  "first_seen js ns = Some ns' \<Longrightarrow> j \<in> set js \<Longrightarrow> j_name j \<in> fst ` set ns'"
proof (induction js arbitrary: ns)
  case Nil
  then show ?case by simp
next
  case (Cons x xs)
  show ?case
  proof (cases "map_of ns (j_name x) = None")
    case True
    with Cons.prems(1) obtain i where i: "first_seen xs (ns @ [(j_name x, i)]) = Some ns'"
      by (auto split: option.splits)
    show ?thesis
    proof (cases "j = x")
      case True
      from first_seen_prefix[OF i] obtain ys where "ns' = (ns @ [(j_name x, i)]) @ ys" by blast
      with True show ?thesis by force
    next
      case False
      with Cons.prems(2) have "j \<in> set xs" by simp
      from Cons.IH[OF i this] show ?thesis .
    qed
  next
    case False
    with Cons.prems(1) have fs: "first_seen xs ns = Some ns'" by simp
    show ?thesis
    proof (cases "j = x")
      case True
      from False have "j_name x \<in> fst ` set ns" by (simp add: map_of_eq_None_iff)
      moreover from first_seen_prefix[OF fs] obtain ys where "ns' = ns @ ys" by blast
      ultimately show ?thesis using True by auto
    next
      case False
      with Cons.prems(2) have "j \<in> set xs" by simp
      from Cons.IH[OF fs this] show ?thesis .
    qed
  qed
qed

lemma add_first_seen:
  fixes g :: "request \<Rightarrow> response"
  shows
  "add_child_first d T res ty r ns f = (Return u, ns', f') \<Longrightarrow> T = (\<lambda>h. g) \<Longrightarrow>
     map_of API_PATH res = Some path \<Longrightarrow>
     first_seen (visits d g (fmc_url f @ path @ ty @ ''/'') ty r) ns = Some ns'"
  and
  "add_children d T res ty chs ns f = (Return u, ns', f') \<Longrightarrow> T = (\<lambda>h. g) \<Longrightarrow>
     map_of API_PATH res = Some path \<Longrightarrow>
     first_seen (child_visits d g (fmc_url f @ path @ ty @ ''/'') ty chs) ns = Some ns'"
proof (induction d T res ty r ns f and d T res ty chs ns f arbitrary: u ns' f' and u ns' f'
       rule: add_child_first_add_children.induct)
  case (1 T resource type obj_json ns f)
  then show ?case by simp
next
  case (2 d T resource type ns f)
  then show ?case by simp
next
  case (3 d T resource type l ns f)
  then show ?case by simp
next
  case (4 d T resource type j ns f)
  let ?pre = "fmc_url f @ path @ type @ ''/''"
  obtain y ns1 f1 where r: "(case j_objects j of None \<Rightarrow> (Return (), ns, f)
        | Some chs \<Rightarrow> add_children d T resource type chs ns f) = (y, ns1, f1)"
    by (metis prod_cases3)
  from 4(2) r obtain v where y: "y = Return v" by (auto split: outcome.splits)
  have k: "first_seen (case j_objects j of None \<Rightarrow> [] | Some chs \<Rightarrow> child_visits d g ?pre type chs) ns
      = Some ns1"
  proof (cases "j_objects j")
    case None
    with r show ?thesis by simp
  next
    case (Some chs)
    with r y have "add_children d T resource type chs ns f = (Return v, ns1, f1)" by simp
    from 4(1)[OF Some this 4(3) 4(4)] Some show ?thesis by simp
  qed
  from 4(2) r y have "first_seen [j] ns1 = Some ns'"
    by (auto simp: update_append split: option.splits if_splits)
  with k show ?case by (simp add: first_seen_append)
next
  case (5 d T resource type ns f)
  then show ?case by simp
next
  case (6 d T resource type ch_item chs ns f)
  let ?pre = "fmc_url f @ path @ type @ ''/''"
  show ?case
  proof (cases "type = lower (c_type ch_item) @ ''s''")
    case False
    from 6(4) False have "add_children d T resource type chs ns f = (Return u, ns', f')" by simp
    from 6(3)[OF False this 6(5) 6(6)] False show ?thesis by simp
  next
    case True
    obtain y f1 where q: "req_json T resource type (Some (c_id ch_item)) None None f = (y, f1)"
      by (metis prod.exhaust)
    have u1: "fmc_url f1 = fmc_url f" using req_json_url[OF q] by simp
    from 6(4) True q obtain ch_json where y: "y = Return ch_json"
      by (cases y) auto
    have cj: "ch_json = (if c_id ch_item = [] then Empty else g (get_request (?pre @ c_id ch_item)))"
      using q y 6(5) 6(6) by (auto simp: req_json_oid split: if_splits)
    obtain z ns1 f2 where r: "add_child_first d T resource type ch_json ns f1 = (z, ns1, f2)"
      by (metis prod_cases3)
    from 6(4) True q y r obtain v where z: "z = Return v"
      by (cases z) auto
    have rest: "add_children d T resource type chs ns1 f2 = (Return u, ns', f')"
      using 6(4) True q y r z by simp
    have u2: "fmc_url f2 = fmc_url f" using add_frame(1)[OF r] u1 by simp
    have a1: "first_seen (visits d g ?pre type ch_json) ns = Some ns1"
      using 6(1)[OF True q[symmetric] y r[unfolded z] 6(5) 6(6)] u1 by simp
    have a2: "first_seen (child_visits d g ?pre type chs) ns1 = Some ns'"
      using 6(2)[OF True q[symmetric] y r[symmetric] z refl rest 6(5) 6(6)] u2 by simp
    have cv: "child_visits d g ?pre type (ch_item # chs) =
        visits d g ?pre type ch_json @ child_visits d g ?pre type chs"
      using True cj by simp
    from a1 a2 show ?thesis unfolding cv by (simp add: first_seen_append)
  qed
qed

lemma ot_items_first_seen:
  "ot_items d (\<lambda>h. g) res ty js ns f = (Return u, ns', f') \<Longrightarrow>
     map_of API_PATH res = Some path \<Longrightarrow>
     first_seen (concat (map (\<lambda>j. visits d g (fmc_url f @ path @ ty @ ''/'') ty (Record j)) js)) ns
       = Some ns'"
proof (induction js arbitrary: ns f)
  case Nil
  then show ?case by simp
next
  case (Cons j js)
  obtain y ns1 f1 where r: "add_child_first d (\<lambda>h. g) res ty (Record j) ns f = (y, ns1, f1)"
    by (metis prod_cases3)
  from Cons.prems(1) r obtain v where y: "y = Return v" by (cases y) auto
  have u1: "fmc_url f1 = fmc_url f" using add_frame(1)[OF r] by simp
  from add_first_seen(1)[OF r[unfolded y] refl Cons.prems(2)]
  have a1: "first_seen (visits d g (fmc_url f @ path @ ty @ ''/'') ty (Record j)) ns = Some ns1" .
  from Cons.prems(1) r y have "ot_items d (\<lambda>h. g) res ty js ns1 f1 = (Return u, ns', f')" by simp
  from Cons.IH[OF this Cons.prems(2)] u1 a1 show ?case by (simp add: first_seen_append)
qed

lemma ot_loop_first_seen:
  "ot_loop n d (\<lambda>h. g) res ty u ns f = (Return v, ns', f') \<Longrightarrow>
     map_of API_PATH res = Some path \<Longrightarrow>
     first_seen (page_visits n d g (fmc_url f @ path @ ty @ ''/'') ty u) ns = Some ns'"
proof (induction n arbitrary: u ns f)
  case 0
  then show ?case by simp
next
  case (Suc n)
  let ?pre = "fmc_url f @ path @ ty @ ''/''"
  show ?case
  proof (cases "u = []")
    case True
    with Suc.prems show ?thesis by simp
  next
    case False
    let ?f1 = "f\<lparr>log := log f @ [get_request u]\<rparr>"
    have q: "fmc_req (\<lambda>h. g) (get_request u) f = (g (get_request u), ?f1)"
      by (simp add: fmc_req_def)
    show ?thesis
    proof (cases "g (get_request u)")
      case Empty
      with Suc.prems False q show ?thesis by simp
    next
      case (Record r)
      with Suc.prems False q show ?thesis by simp
    next
      case (Listing resp)
      show ?thesis
      proof (cases "count (paging resp) = 0")
        case True
        with Suc.prems False q Listing show ?thesis by simp
      next
        case nz: False
        obtain y ns1 f2 where r: "ot_items d (\<lambda>h. g) res ty (items resp) ns ?f1 = (y, ns1, f2)"
          by (metis prod_cases3)
        from Suc.prems(1) False q Listing nz r obtain w where y: "y = Return w"
          by (cases y) auto
        have a1: "first_seen (concat (map (\<lambda>j. visits d g ?pre ty (Record j)) (items resp))) ns
            = Some ns1"
          using ot_items_first_seen[OF r[unfolded y] Suc.prems(2)] by simp
        have u2: "fmc_url f2 = fmc_url f" using ot_items_frame[OF r] by simp
        show ?thesis
        proof (cases "next (paging resp)")
          case None
          with Suc.prems(1) False q Listing nz r y have "ns' = ns1" by simp
          with a1 False Listing nz None show ?thesis by (simp add: first_seen_append)
        next
          case (Some us)
          show ?thesis
          proof (cases us)
            case Nil
            with Suc.prems(1) False q Listing nz r y Some show ?thesis by simp
          next
            case (Cons u' us')
            let ?u = "if \<not> sublist ''expanded=true'' u' then u' @ ''&expanded=true'' else u'"
            from Cons Suc.prems(1) False q Listing nz r y Some
            have rest: "ot_loop n d (\<lambda>h. g) res ty ?u ns1 f2 = (Return v, ns', f')" by simp
            from Suc.IH[OF rest Suc.prems(2)] u2
            have a2: "first_seen (page_visits n d g ?pre ty ?u) ns1 = Some ns'" by simp
            have pv: "page_visits (Suc n) d g ?pre ty u =
                concat (map (\<lambda>j. visits d g ?pre ty (Record j)) (items resp)) @
                page_visits n d g ?pre ty ?u"
              using False Listing nz Some Cons by simp
            from a1 a2 show ?thesis unfolding pv by (simp add: first_seen_append)
          qed
        qed
      qed
    qed
  qed
qed

lemma build_first_seen:
  assumes "FPObjectTable_build fuel d (\<lambda>h. g) ty ns f = (Return (), ns', f')"
  shows "first_seen (build_visits fuel d g (fmc_url f) ty) ns = Some ns'"
  using assms ot_loop_first_seen[OF _ API_PATH_object, of fuel d g ty _ ns f "()" ns' f']
  by (simp add: FPObjectTable_build_def API_PATH_object build_visits_def)

lemma child_first_append:
  assumes "child_first g V pre ty ns1"
    and "\<And>p chs c. p \<in> set V \<Longrightarrow> j_name p \<in> fst ` set xs \<Longrightarrow> j_name p \<notin> fst ` set ns1 \<Longrightarrow>
           j_objects p = Some chs \<Longrightarrow> c \<in> set chs \<Longrightarrow> ty = lower (c_type c) @ ''s'' \<Longrightarrow>
           \<exists>ch. g (get_request (pre @ c_id c)) = Record ch \<and>
                index_of (j_name ch) (ns1 @ xs) < index_of (j_name p) (ns1 @ xs)"
  shows "child_first g V pre ty (ns1 @ xs)"
  unfolding child_first_def
proof (intro ballI allI impI)
  fix p chs c
  assume p: "p \<in> set V" "j_name p \<in> fst ` set (ns1 @ xs)" "j_objects p = Some chs"
    "c \<in> set chs" "ty = lower (c_type c) @ ''s''"
  show "\<exists>ch. g (get_request (pre @ c_id c)) = Record ch \<and>
          index_of (j_name ch) (ns1 @ xs) < index_of (j_name p) (ns1 @ xs)"
  proof (cases "j_name p \<in> fst ` set ns1")
    case True
    with assms(1) p obtain ch where ch: "g (get_request (pre @ c_id c)) = Record ch"
      "index_of (j_name ch) ns1 < index_of (j_name p) ns1"
      unfolding child_first_def by blast
    from ch(2) have "j_name ch \<in> fst ` set ns1" by (rule index_less_in)
    with ch True show ?thesis by (auto simp: index_of_append_in)
  next
    case False
    with p have "j_name p \<in> fst ` set xs" by auto
    from assms(2)[OF p(1) this False p(3,4,5)] show ?thesis .
  qed
qed

lemma child_first_snoc:
  assumes "child_first g V pre ty ns1" and "k \<notin> fst ` set ns1"
    and "\<And>p chs c. p \<in> set V \<Longrightarrow> j_name p = k \<Longrightarrow> j_objects p = Some chs \<Longrightarrow> c \<in> set chs \<Longrightarrow>
           ty = lower (c_type c) @ ''s'' \<Longrightarrow>
           \<exists>ch. g (get_request (pre @ c_id c)) = Record ch \<and> j_name ch \<in> fst ` set ns1"
  shows "child_first g V pre ty (ns1 @ [(k, v)])"
proof (rule child_first_append[OF assms(1)])
  fix p chs c
  assume p: "p \<in> set V" "j_name p \<in> fst ` set [(k, v)]" "j_objects p = Some chs"
    "c \<in> set chs" "ty = lower (c_type c) @ ''s''"
  then have k: "j_name p = k" by simp
  from assms(3)[OF p(1) k p(3,4,5)] obtain ch where
    ch: "g (get_request (pre @ c_id c)) = Record ch" "j_name ch \<in> fst ` set ns1" by blast
  have "index_of (j_name ch) (ns1 @ [(k, v)]) = index_of (j_name ch) ns1"
    using ch(2) by (rule index_of_append_in)
  also have "\<dots> < length ns1" using ch(2) by (simp add: index_of_less_iff)
  also have "length ns1 = index_of (j_name p) (ns1 @ [(k, v)])"
    using assms(2) k by (simp add: index_of_append_new)
  finally show "\<exists>ch. g (get_request (pre @ c_id c)) = Record ch \<and>
      index_of (j_name ch) (ns1 @ [(k, v)]) < index_of (j_name p) (ns1 @ [(k, v)])"
    using ch(1) by blast
qed

lemma add_order:
  fixes g :: "request \<Rightarrow> response"
  shows
  "add_child_first d T res ty r ns f = (Return u, ns', f') \<Longrightarrow> T = (\<lambda>h. g) \<Longrightarrow>
     map_of API_PATH res = Some path \<Longrightarrow> same_children V \<Longrightarrow>
     set (visits d g (fmc_url f @ path @ ty @ ''/'') ty r) \<subseteq> set V \<Longrightarrow>
     child_first g V (fmc_url f @ path @ ty @ ''/'') ty ns \<Longrightarrow>
     child_first g V (fmc_url f @ path @ ty @ ''/'') ty ns' \<and>
     (\<forall>j. r = Record j \<longrightarrow> j_name j \<in> fst ` set ns')"
  and
  "add_children d T res ty chs ns f = (Return u, ns', f') \<Longrightarrow> T = (\<lambda>h. g) \<Longrightarrow>
     map_of API_PATH res = Some path \<Longrightarrow> same_children V \<Longrightarrow>
     set (child_visits d g (fmc_url f @ path @ ty @ ''/'') ty chs) \<subseteq> set V \<Longrightarrow>
     child_first g V (fmc_url f @ path @ ty @ ''/'') ty ns \<Longrightarrow>
     child_first g V (fmc_url f @ path @ ty @ ''/'') ty ns' \<and>
     (\<forall>c\<in>set chs. ty = lower (c_type c) @ ''s'' \<longrightarrow>
        (\<exists>ch. g (get_request ((fmc_url f @ path @ ty @ ''/'') @ c_id c)) = Record ch \<and>
              j_name ch \<in> fst ` set ns'))"
proof (induction d T res ty r ns f and d T res ty chs ns f arbitrary: u ns' f' and u ns' f'
       rule: add_child_first_add_children.induct)
  case (1 T resource type obj_json ns f)
  then show ?case by simp
next
  case (2 d T resource type ns f)
  then show ?case by simp
next
  case (3 d T resource type l ns f)
  then show ?case by simp
next
  case (4 d T resource type j ns f)
  let ?pre = "fmc_url f @ path @ type @ ''/''"
  have jV: "j \<in> set V" using 4(6) by simp
  obtain y ns1 f1 where r: "(case j_objects j of None \<Rightarrow> (Return (), ns, f)
        | Some chs \<Rightarrow> add_children d T resource type chs ns f) = (y, ns1, f1)"
    by (metis prod_cases3)
  from 4(2) r obtain v where y: "y = Return v" by (auto split: outcome.splits)
  have q1: "child_first g V ?pre type ns1 \<and>
      (\<forall>chs c. j_objects j = Some chs \<longrightarrow> c \<in> set chs \<longrightarrow> type = lower (c_type c) @ ''s'' \<longrightarrow>
        (\<exists>ch. g (get_request (?pre @ c_id c)) = Record ch \<and> j_name ch \<in> fst ` set ns1))"
  proof (cases "j_objects j")
    case None
    with r 4(7) show ?thesis by simp
  next
    case (Some chs)
    with r y have a: "add_children d T resource type chs ns f = (Return v, ns1, f1)" by simp
    have sub: "set (child_visits d g ?pre type chs) \<subseteq> set V" using 4(6) Some by simp
    from 4(1)[OF Some a 4(3) 4(4) 4(5) sub 4(7)] Some show ?thesis by auto
  qed
  show ?case
  proof (cases "map_of ns1 (j_name j) = None")
    case True
    with 4(2) r y obtain i where i: "j_id j = Some i" "ns' = AList.update (j_name j) i ns1"
      by (auto split: option.splits)
    have ns': "ns' = ns1 @ [(j_name j, i)]" using i True by (simp add: update_append)
    have notin: "j_name j \<notin> fst ` set ns1" using True by (simp add: map_of_eq_None_iff)
    have "child_first g V ?pre type (ns1 @ [(j_name j, i)])"
    proof (rule child_first_snoc[OF _ notin])
      show "child_first g V ?pre type ns1" using q1 by simp
    next
      fix p chs c
      assume p: "p \<in> set V" "j_name p = j_name j" "j_objects p = Some chs" "c \<in> set chs"
        "type = lower (c_type c) @ ''s''"
      from 4(5) p(1) jV p(2) have "j_objects p = j_objects j" unfolding same_children_def by blast
      with q1 p show "\<exists>ch. g (get_request (?pre @ c_id c)) = Record ch \<and> j_name ch \<in> fst ` set ns1"
        by simp
    qed
    with ns' show ?thesis by simp
  next
    case False
    with 4(2) r y have "ns' = ns1" by (auto split: option.splits)
    moreover from False have "j_name j \<in> fst ` set ns1" by (simp add: map_of_eq_None_iff)
    ultimately show ?thesis using q1 by simp
  qed
next
  case (5 d T resource type ns f)
  then show ?case by simp
next
  case (6 d T resource type ch_item chs ns f)
  let ?pre = "fmc_url f @ path @ type @ ''/''"
  show ?case
  proof (cases "type = lower (c_type ch_item) @ ''s''")
    case False
    from 6(4) False have a: "add_children d T resource type chs ns f = (Return u, ns', f')" by simp
    have sub: "set (child_visits d g ?pre type chs) \<subseteq> set V" using 6(8) False by simp
    from 6(3)[OF False a 6(5) 6(6) 6(7) sub 6(9)] False show ?thesis by auto
  next
    case True
    obtain y f1 where q: "req_json T resource type (Some (c_id ch_item)) None None f = (y, f1)"
      by (metis prod.exhaust)
    have u1: "fmc_url f1 = fmc_url f" using req_json_url[OF q] by simp
    from 6(4) True q obtain ch_json where y: "y = Return ch_json"
      by (cases y) auto
    have cj: "ch_json = (if c_id ch_item = [] then Empty else g (get_request (?pre @ c_id ch_item)))"
      using q y 6(5) 6(6) by (auto simp: req_json_oid split: if_splits)
    obtain z ns1 f2 where r: "add_child_first d T resource type ch_json ns f1 = (z, ns1, f2)"
      by (metis prod_cases3)
    from 6(4) True q y r obtain v where z: "z = Return v"
      by (cases z) auto
    from add_child_first_Return[OF r[unfolded z]] obtain ch where ch: "ch_json = Record ch" by blast
    have gch: "g (get_request (?pre @ c_id ch_item)) = Record ch"
      using cj ch by (auto split: if_splits)
    have cv: "child_visits d g ?pre type (ch_item # chs) =
        visits d g ?pre type ch_json @ child_visits d g ?pre type chs"
      using True cj by simp
    have sub1: "set (visits d g (fmc_url f1 @ path @ type @ ''/'') type ch_json) \<subseteq> set V"
      and sub2: "set (child_visits d g ?pre type chs) \<subseteq> set V"
      using 6(8) u1 unfolding cv by simp_all
    have rest: "add_children d T resource type chs ns1 f2 = (Return u, ns', f')"
      using 6(4) True q y r z by simp
    have c0: "child_first g V (fmc_url f1 @ path @ type @ ''/'') type ns" using 6(9) u1 by simp
    have a1: "child_first g V ?pre type ns1 \<and> j_name ch \<in> fst ` set ns1"
      using 6(1)[OF True q[symmetric] y r[unfolded z] 6(5) 6(6) 6(7) sub1 c0] ch u1 by simp
    have u2: "fmc_url f2 = fmc_url f" using add_frame(1)[OF r] u1 by simp
    have sub2': "set (child_visits d g (fmc_url f2 @ path @ type @ ''/'') type chs) \<subseteq> set V"
      using sub2 u2 by simp
    have c1: "child_first g V (fmc_url f2 @ path @ type @ ''/'') type ns1" using a1 u2 by simp
    have a2: "child_first g V ?pre type ns' \<and>
       (\<forall>c\<in>set chs. type = lower (c_type c) @ ''s'' \<longrightarrow>
          (\<exists>ch. g (get_request (?pre @ c_id c)) = Record ch \<and> j_name ch \<in> fst ` set ns'))"
      using 6(2)[OF True q[symmetric] y r[symmetric] z refl rest 6(5) 6(6) 6(7) sub2' c1] u2 by simp
    from add_frame(2)[OF rest] obtain xs where "ns' = ns1 @ xs" by blast
    with a1 have "j_name ch \<in> fst ` set ns'" by auto
    with gch a2 show ?thesis by auto
  qed
qed

lemma ot_items_order:
  "ot_items d (\<lambda>h. g) res ty js ns f = (Return u, ns', f') \<Longrightarrow>
     map_of API_PATH res = Some path \<Longrightarrow> same_children V \<Longrightarrow>
     set (concat (map (\<lambda>j. visits d g (fmc_url f @ path @ ty @ ''/'') ty (Record j)) js)) \<subseteq> set V \<Longrightarrow>
     child_first g V (fmc_url f @ path @ ty @ ''/'') ty ns \<Longrightarrow>
     child_first g V (fmc_url f @ path @ ty @ ''/'') ty ns'"
proof (induction js arbitrary: ns f)
  case Nil
  then show ?case by simp
next
  case (Cons j js)
  let ?pre = "fmc_url f @ path @ ty @ ''/''"
  obtain y ns1 f1 where r: "add_child_first d (\<lambda>h. g) res ty (Record j) ns f = (y, ns1, f1)"
    by (metis prod_cases3)
  from Cons.prems(1) r obtain v where y: "y = Return v" by (cases y) auto
  have u1: "fmc_url f1 = fmc_url f" using add_frame(1)[OF r] by simp
  have sub1: "set (visits d g ?pre ty (Record j)) \<subseteq> set V"
    and sub2: "set (concat (map (\<lambda>j. visits d g (fmc_url f1 @ path @ ty @ ''/'') ty (Record j)) js))
        \<subseteq> set V"
    using Cons.prems(4) u1 by simp_all
  from add_order(1)[OF r[unfolded y] refl Cons.prems(2,3) sub1 Cons.prems(5)]
  have c1: "child_first g V (fmc_url f1 @ path @ ty @ ''/'') ty ns1" using u1 by simp
  from Cons.prems(1) r y have "ot_items d (\<lambda>h. g) res ty js ns1 f1 = (Return u, ns', f')" by simp
  from Cons.IH[OF this Cons.prems(2,3) sub2 c1] u1 show ?case by simp
qed

lemma ot_loop_order:
  "ot_loop n d (\<lambda>h. g) res ty u ns f = (Return v, ns', f') \<Longrightarrow>
     map_of API_PATH res = Some path \<Longrightarrow> same_children V \<Longrightarrow>
     set (page_visits n d g (fmc_url f @ path @ ty @ ''/'') ty u) \<subseteq> set V \<Longrightarrow>
     child_first g V (fmc_url f @ path @ ty @ ''/'') ty ns \<Longrightarrow>
     child_first g V (fmc_url f @ path @ ty @ ''/'') ty ns'"
proof (induction n arbitrary: u ns f)
  case 0
  then show ?case by simp
next
  case (Suc n)
  let ?pre = "fmc_url f @ path @ ty @ ''/''"
  show ?case
  proof (cases "u = []")
    case True
    with Suc.prems show ?thesis by simp
  next
    case False
    let ?f1 = "f\<lparr>log := log f @ [get_request u]\<rparr>"
    have q: "fmc_req (\<lambda>h. g) (get_request u) f = (g (get_request u), ?f1)"
      by (simp add: fmc_req_def)
    show ?thesis
    proof (cases "g (get_request u)")
      case Empty
      with Suc.prems False q show ?thesis by simp
    next
      case (Record r)
      with Suc.prems False q show ?thesis by simp
    next
      case (Listing resp)
      show ?thesis
      proof (cases "count (paging resp) = 0")
        case True
        with Suc.prems False q Listing show ?thesis by simp
      next
        case nz: False
        obtain y ns1 f2 where r: "ot_items d (\<lambda>h. g) res ty (items resp) ns ?f1 = (y, ns1, f2)"
          by (metis prod_cases3)
        from Suc.prems(1) False q Listing nz r obtain w where y: "y = Return w"
          by (cases y) auto
        have sub1: "set (concat (map (\<lambda>j. visits d g (fmc_url ?f1 @ path @ ty @ ''/'') ty (Record j))
            (items resp))) \<subseteq> set V"
          using Suc.prems(4) False Listing nz by simp
        have c0: "child_first g V (fmc_url ?f1 @ path @ ty @ ''/'') ty ns"
          using Suc.prems(5) by simp
        have c1: "child_first g V ?pre ty ns1"
          using ot_items_order[OF r[unfolded y] Suc.prems(2,3) sub1 c0] by simp
        have u2: "fmc_url f2 = fmc_url f" using ot_items_frame[OF r] by simp
        show ?thesis
        proof (cases "next (paging resp)")
          case None
          with Suc.prems(1) False q Listing nz r y c1 show ?thesis by simp
        next
          case (Some us)
          show ?thesis
          proof (cases us)
            case Nil
            with Suc.prems(1) False q Listing nz r y Some show ?thesis by simp
          next
            case (Cons u' us')
            let ?u = "if \<not> sublist ''expanded=true'' u' then u' @ ''&expanded=true'' else u'"
            from Cons Suc.prems(1) False q Listing nz r y Some
            have rest: "ot_loop n d (\<lambda>h. g) res ty ?u ns1 f2 = (Return v, ns', f')" by simp
            have sub2: "set (page_visits n d g (fmc_url f2 @ path @ ty @ ''/'') ty ?u) \<subseteq> set V"
              using Suc.prems(4) False Listing nz Some Cons u2 by simp
            have c1': "child_first g V (fmc_url f2 @ path @ ty @ ''/'') ty ns1" using c1 u2 by simp
            from Suc.IH[OF rest Suc.prems(2,3) sub2 c1'] u2 show ?thesis by simp
          qed
        qed
      qed
    qed
  qed
qed

text \<open>
  C1 (as the code has it). Against a server with a fixed object graph, let \<open>V\<close> be the
  records that \<open>FPObjectTable.build()\<close> works through (\<open>build_visits\<close>), records of the same
  name in \<open>V\<close> carrying the same nested references. When the cache is child-first for \<open>V\<close>
  before the build (the empty cache of a new table in particular), then after a completed
  build every record of \<open>V\<close> has an entry in the cache, and for every record of \<open>V\<close> and
  every nested reference of the table's own type in it, the referenced child has its entry
  at a strictly smaller index than the record.
\<close>

theorem child_first_order:
  assumes "FPObjectTable_build fuel d (\<lambda>h. g) ty ns f = (Return (), ns', f')"
    and "V = build_visits fuel d g (fmc_url f) ty"
    and "pre = fmc_url f @ ''/api/fmc_config/v1/domain/default/object/'' @ ty @ ''/''"
    and "same_children V"
    and "child_first g V pre ty ns"
  shows "(\<forall>p \<in> set V. j_name p \<in> fst ` set ns') \<and> child_first g V pre ty ns'"
proof -
  let ?u = "fmc_url f @ ''/api/fmc_config/v1/domain/default/object/'' @ ty @ ''?expanded=true''"
  from assms(1) have l: "ot_loop fuel d (\<lambda>h. g) ''object'' ty ?u ns f = (Return (), ns', f')"
    by (simp add: FPObjectTable_build_def API_PATH_object)
  have sub: "set (page_visits fuel d g
      (fmc_url f @ ''/api/fmc_config/v1/domain/default/object/'' @ ty @ ''/'') ty ?u) \<subseteq> set V"
    using assms(2) by (simp add: build_visits_def)
  have c0: "child_first g V (fmc_url f @ ''/api/fmc_config/v1/domain/default/object/'' @ ty @ ''/'')
      ty ns" using assms(3,5) by simp
  from ot_loop_order[OF l API_PATH_object assms(4) sub c0] assms(3)
  have "child_first g V pre ty ns'" by simp
  moreover from build_first_seen[OF assms(1)] assms(2) have "first_seen V ns = Some ns'" by simp
  then have "\<forall>p \<in> set V. j_name p \<in> fst ` set ns'" using first_seen_keys by blast
  ultimately show ?thesis by simp
qed

lemma example_visits:
  "build_visits 5 5 example_server (fmc_url example_fmc) ''networkgroups'' =
     [inner_group, outer_group, inner_group]"
  by code_simp

theorem child_first_order_witness:
  "build_visits 5 5 example_server (fmc_url example_fmc) ''networkgroups'' =
     [inner_group, outer_group, inner_group] \<and>
   j_name inner_group \<in> fst ` set (fst (snd (FPObjectTable_build 5 5 (\<lambda>h. example_server)
       ''networkgroups'' [] example_fmc))) \<and>
   j_name outer_group \<in> fst ` set (fst (snd (FPObjectTable_build 5 5 (\<lambda>h. example_server)
       ''networkgroups'' [] example_fmc))) \<and>
   index_of (j_name inner_group) (fst (snd (FPObjectTable_build 5 5 (\<lambda>h. example_server)
       ''networkgroups'' [] example_fmc))) <
   index_of (j_name outer_group) (fst (snd (FPObjectTable_build 5 5 (\<lambda>h. example_server)
       ''networkgroups'' [] example_fmc)))"
proof -
  let ?V = "[inner_group, outer_group, inner_group]"
  let ?pre = "fmc_url example_fmc @ ''/api/fmc_config/v1/domain/default/object/'' @
     ''networkgroups'' @ ''/''"
  let ?ns = "fst (snd (FPObjectTable_build 5 5 (\<lambda>h. example_server) ''networkgroups'' []
     example_fmc))"
  have b: "FPObjectTable_build 5 5 (\<lambda>h. example_server) ''networkgroups'' [] example_fmc =
      (Return (), ?ns, snd (snd (FPObjectTable_build 5 5 (\<lambda>h. example_server) ''networkgroups'' []
     example_fmc)))"
    by (simp add: example_build)
  have sc: "same_children ?V"
    by (simp add: same_children_def inner_group_def outer_group_def example_record_def)
  have c0: "child_first example_server ?V ?pre ''networkgroups'' []"
    by (simp add: child_first_def)
  from child_first_order[OF b example_visits[symmetric] refl sc c0]
  have all: "\<forall>p \<in> set ?V. j_name p \<in> fst ` set ?ns"
    and cf: "child_first example_server ?V ?pre ''networkgroups'' ?ns" by simp_all
  have o: "j_objects outer_group =
      Some [example_child ''G2'' ''2'' ''NetworkGroup'', example_child ''H1'' ''h1'' ''Host'']"
    by (simp add: outer_group_def example_record_def)
  have m: "''networkgroups'' = lower (c_type (example_child ''G2'' ''2'' ''NetworkGroup'')) @ ''s''"
    by code_simp
  have gq: "example_server (get_request (?pre @ c_id (example_child ''G2'' ''2'' ''NetworkGroup''))) =
      Record inner_group" by code_simp
  from all have in1: "j_name inner_group \<in> fst ` set ?ns" and in2: "j_name outer_group \<in> fst ` set ?ns"
    by simp_all
  from cf[unfolded child_first_def, rule_format, of outer_group _ "example_child ''G2'' ''2'' ''NetworkGroup''",
          OF _ in2 o _ m]
  obtain ch where "example_server (get_request (?pre @ c_id (example_child ''G2'' ''2'' ''NetworkGroup'')))
      = Record ch" "index_of (j_name ch) ?ns < index_of (j_name outer_group) ?ns"
    by auto
  with gq have "index_of (j_name inner_group) ?ns < index_of (j_name outer_group) ?ns" by simp
  with in1 in2 example_visits show ?thesis by simp
qed

text \<open>
  C1 as stated fails: constructing the \<open>FPObject\<close> of the fetched record of \<open>G1\<close> leaves
  \<open>G1\<close> alone in the cache of \<open>networkgroups\<close>; \<open>build()\<close> on that cache then appends the
  nested child \<open>G2\<close> behind its parent \<open>G1\<close>, which keeps its place.
\<close>

theorem child_first_prefilled_counterexample:
  "map_of (obj_tables (snd (snd (FPObject_init crud_server (Some ''networkgroups'') None None None
       (Some outer_group) None None example_fmc)))) ''networkgroups'' = Some [(''G1'', ''1'')] \<and>
   fst (snd (FPObjectTable_build 5 5 (\<lambda>h. example_server) ''networkgroups'' [(''G1'', ''1'')]
       example_fmc)) = [(''G1'', ''1''), (''G2'', ''2'')] \<and>
   index_of ''G1'' [(''G1'', ''1''), (''G2'', ''2'')] < index_of ''G2'' [(''G1'', ''1''), (''G2'', ''2'')]"
  by code_simp





section \<open>Properties of FPResourceTable and of pagination\<close>

lemma rt_items_append:
  "rt_items (xs @ ys) ns =
     (case rt_items xs ns of (Return u, ns1) \<Rightarrow> rt_items ys ns1 | (x, ns1) \<Rightarrow> (x, ns1))"
  by (induction xs arbitrary: ns) (auto split: option.splits)

lemma rt_items_last:
  "rt_items js ns = (Return u, ns') \<Longrightarrow>
     map_of ns' k = (case filter (\<lambda>j. j_name j = k) js of [] \<Rightarrow> map_of ns k | xs \<Rightarrow> j_id (last xs))"
proof (induction js arbitrary: ns)
  case Nil
  then show ?case by simp
next
  case (Cons j js)
  from Cons.prems obtain i where i: "j_id j = Some i"
    "rt_items js (AList.update (j_name j) i ns) = (Return u, ns')"
    by (auto split: option.splits)
  from Cons.IH[OF i(2)] i(1) show ?case
    by (auto simp: update_conv' split: list.splits)
qed

lemma rt_items_distinct:
  "rt_items js ns = (x, ns') \<Longrightarrow> distinct (map fst ns) \<Longrightarrow> distinct (map fst ns')"
  by (induction js arbitrary: ns) (auto simp: distinct_update split: option.splits)

lemma rt_loop_drain:
  "rt_loop n T u ns f = (Return v, ns', f') \<Longrightarrow> rt_items (rt_drain n T u f) ns = (Return (), ns')"
proof (induction n arbitrary: u ns f)
  case 0
  then show ?case by simp
next
  case (Suc n)
  show ?case
  proof (cases "u = []")
    case True
    with Suc.prems show ?thesis by simp
  next
    case False
    let ?f1 = "f\<lparr>log := log f @ [get_request u]\<rparr>"
    have q: "fmc_req T (get_request u) f = (T (log f) (get_request u), ?f1)"
      by (simp add: fmc_req_def)
    show ?thesis
    proof (cases "T (log f) (get_request u)")
      case Empty
      with Suc.prems False q show ?thesis by simp
    next
      case (Record r)
      with Suc.prems False q show ?thesis by simp
    next
      case (Listing resp)
      show ?thesis
      proof (cases "count (paging resp) = 0")
        case True
        with Suc.prems False q Listing show ?thesis by simp
      next
        case nz: False
        obtain y ns1 where r: "rt_items (items resp) ns = (y, ns1)"
          by (metis prod.exhaust)
        from Suc.prems False q Listing nz r obtain w where y: "y = Return w"
          by (cases y) auto
        show ?thesis
        proof (cases "next (paging resp)")
          case None
          with Suc.prems False q Listing nz r y show ?thesis
            by (simp add: rt_items_append)
        next
          case (Some us)
          show ?thesis
          proof (cases us)
            case Nil
            with Suc.prems False q Listing nz r y Some show ?thesis by simp
          next
            case (Cons u' us')
            let ?u = "if \<not> sublist ''expanded=true'' u' then u' @ ''&expanded=true'' else u'"
            from Cons Suc.prems False q Listing nz r y Some
            have "rt_loop n T ?u ns1 ?f1 = (Return v, ns', f')" by simp
            from Suc.IH[OF this] False q Listing nz r y Some Cons show ?thesis
              by (simp add: rt_items_append)
          qed
        qed
      qed
    qed
  qed
qed

lemma dup_build:
  "FPResourceTable_build 5 (\<lambda>h. duplicate_server) ''object'' ''hosts'' [] example_fmc =
    (Return (), [(''H1'', ''2'')],
     example_fmc\<lparr>log := [get_request ''https://fmc/api/fmc_config/v1/domain/default/object/hosts?expanded=true'']\<rparr>)"
  by code_simp

lemma dup_drained: "drained 5 (\<lambda>h. duplicate_server) ''object'' ''hosts'' example_fmc =
   [example_record ''H1'' ''1'' ''Host'' None, example_record ''H1'' ''2'' ''Host'' None]"
  by code_simp

text \<open>
  C4 as stated fails: when the listing carries \<open>H1\<close> with identifier \<open>1\<close> and then
  \<open>H1\<close> with identifier \<open>2\<close>, the cache maps \<open>H1\<close> to \<open>2\<close>, not to the first one.
\<close>

theorem resource_table_first_write_counterexample:
  "map_of (fst (snd (FPResourceTable_build 5 (\<lambda>h. duplicate_server) ''object'' ''hosts'' [] example_fmc))) ''H1''
     = Some ''2''"
  by code_simp

lemma rt_items_keys:
  "rt_items js ns = (Return u, ns') \<Longrightarrow> map fst ns' = key_order (map j_name js) (map fst ns)"
proof (induction js arbitrary: ns)
  case Nil
  then show ?case by simp
next
  case (Cons j js)
  from Cons.prems obtain i where i: "j_id j = Some i"
    "rt_items js (AList.update (j_name j) i ns) = (Return u, ns')"
    by (auto split: option.splits)
  from Cons.IH[OF i(2)] show ?case by (simp add: update_keys)
qed

text \<open>
  C4 (as the code has it). \<open>FPResourceTable.build()\<close> assigns name to identifier for every
  drained item with no test for a name already present. After a completed build a name
  that occurs among the drained items maps to the identifier of the last item carrying
  it, any other name is as before; the keys of the cache are the previous keys followed
  by the new names in the order of their first occurrence (\<open>key_order\<close>), so an entry stays
  at the position of its first insertion; and the keys stay distinct.
\<close>

theorem resource_table_last_write_wins:
  assumes "FPResourceTable_build fuel T resource type ns f = (Return (), ns', f')"
  shows "map_of ns' k =
           (case filter (\<lambda>j. j_name j = k) (drained fuel T resource type f) of
              [] \<Rightarrow> map_of ns k
            | xs \<Rightarrow> j_id (last xs)) \<and>
         map fst ns' = key_order (map j_name (drained fuel T resource type f)) (map fst ns) \<and>
         (distinct (map fst ns) \<longrightarrow> distinct (map fst ns'))"
proof -
  from assms obtain path where p: "map_of API_PATH resource = Some path"
    "rt_loop fuel T (fmc_url f @ path @ type @ ''?expanded=true'') ns f = (Return (), ns', f')"
    by (auto simp: FPResourceTable_build_def split: option.splits)
  from rt_loop_drain[OF p(2)] p(1)
  have r: "rt_items (drained fuel T resource type f) ns = (Return (), ns')"
    by (simp add: drained_def)
  from rt_items_last[OF r] rt_items_keys[OF r] rt_items_distinct[OF r] show ?thesis by simp
qed

lemma repeat_build:
  "FPResourceTable_build 5 (\<lambda>h. repeat_server) ''object'' ''hosts'' [] example_fmc =
    (Return (), [(''H1'', ''2''), (''H2'', ''7'')],
     example_fmc\<lparr>log := [get_request ''https://fmc/api/fmc_config/v1/domain/default/object/hosts?expanded=true'']\<rparr>)"
  by code_simp

lemma repeat_drained: "drained 5 (\<lambda>h. repeat_server) ''object'' ''hosts'' example_fmc =
   [example_record ''H1'' ''1'' ''Host'' None, example_record ''H2'' ''7'' ''Host'' None,
    example_record ''H1'' ''2'' ''Host'' None]"
  by code_simp

theorem resource_table_last_write_wins_witness:
  "map_of (fst (snd (FPResourceTable_build 5 (\<lambda>h. repeat_server) ''object'' ''hosts'' []
       example_fmc))) ''H1'' = j_id (example_record ''H1'' ''2'' ''Host'' None) \<and>
   map fst (fst (snd (FPResourceTable_build 5 (\<lambda>h. repeat_server) ''object'' ''hosts'' []
       example_fmc))) = [''H1'', ''H2'']"
  using resource_table_last_write_wins[OF repeat_build, of "''H1''"]
  by (simp add: repeat_build repeat_drained example_record_def)

lemma get_all_urls:
  "map url (log (snd (snd (get_all_resource_instances 5 (\<lambda>h. paged_server) ''object'' ''hosts'' example_fmc)))) =
     [''https://fmc/api/fmc_config/v1/domain/default/object/hosts?expanded=true'',
      ''https://fmc/api/fmc_config/v1/domain/default/object/hosts?offset=1&limit=1'']"
  by code_simp

lemma rt_urls:
  "map url (log (snd (snd (FPResourceTable_build 5 (\<lambda>h. paged_server) ''object'' ''hosts'' [] example_fmc)))) =
     [''https://fmc/api/fmc_config/v1/domain/default/object/hosts?expanded=true'',
      ''https://fmc/api/fmc_config/v1/domain/default/object/hosts?offset=1&limit=1&expanded=true'']"
  by code_simp

lemma ot_urls:
  "map url (log (snd (snd (FPObjectTable_build 5 5 (\<lambda>h. paged_server) ''hosts'' [] example_fmc)))) =
     [''https://fmc/api/fmc_config/v1/domain/default/object/hosts?expanded=true'',
      ''https://fmc/api/fmc_config/v1/domain/default/object/hosts?offset=1&limit=1&expanded=true'']"
  by code_simp

text \<open>
  C7 at an input where the code departs from it: the first page of the listing gives a
  "next" link without the flag; \<open>get_all_resource_instances\<close> requests that link as it
  is, where both \<open>build\<close> methods (\<open>rt_urls\<close>, \<open>ot_urls\<close>) append \<open>&expanded=true\<close>.
\<close>

theorem get_all_drops_expanded:
  "url (last (log (snd (snd (get_all_resource_instances 5 (\<lambda>h. paged_server)
          ''object'' ''hosts'' example_fmc))))) =
     ''https://fmc/api/fmc_config/v1/domain/default/object/hosts?offset=1&limit=1'' \<and>
   \<not> sublist ''expanded=true''
     (url (last (log (snd (snd (get_all_resource_instances 5 (\<lambda>h. paged_server)
          ''object'' ''hosts'' example_fmc))))))"
  by code_simp

section \<open>Properties of FPObject\<close>


lemma delete_effect:
  assumes "o_type self = Some ty" and "o_json self = Held (Record r)" and "j_links r = Some u"
    and "FPObject_delete T self f = (x, f')"
  shows "log f' = log f @ [delete_request u] \<and>
         (x = Return (T (log f) (delete_request u)) \<or> x = Raise KeyError) \<and>
         (\<forall>resp. x = Return resp \<and> resp \<noteq> Empty \<longrightarrow>
            (\<exists>obj_names. map_of (obj_tables f') ty = Some obj_names \<and>
                          map_of obj_names (j_name r) = None))"
  using assms
  by (auto simp: FPObject_delete_def fmc_req_def delete_request_def update_conv' delete_conv'
           split: option.splits if_splits)

lemma update_effect:
  assumes "o_type self = Some ty" and "o_json self = Held (Record r)" and "j_links r = Some u"
  shows "FPObject_update T d self f =
     (let resp = T (log f) \<lparr>method = ''PUT'', url = u, data = Some d\<rparr>;
          f' = f\<lparr>log := log f @ [\<lparr>method = ''PUT'', url = u, data = Some d\<rparr>]\<rparr>
      in if resp \<noteq> Empty then (Return (Held resp), self\<lparr>o_json := Held resp\<rparr>, f')
         else (Return (o_json self), self, f'))"
  using assms by (simp add: FPObject_update_def fmc_req_def Let_def)

lemma remove_loop_filter:
  "remove_loop nm cs (kept, ct) =
     (kept @ filter (\<lambda>c. c_name c \<noteq> nm) cs,
      (case filter (\<lambda>c. c_name c = nm) cs of [] \<Rightarrow> ct | xs \<Rightarrow> c_type (last xs)))"
  by (induction cs arbitrary: kept ct) (auto split: list.splits)

lemma remove_loop_found:
  assumes "\<forall>c \<in> set cs. c_type c \<noteq> []"
  shows "snd (remove_loop nm cs ([], [])) \<noteq> [] \<longleftrightarrow> nm \<in> c_name ` set cs"
proof (cases "filter (\<lambda>c. c_name c = nm) cs")
  case Nil
  then have "nm \<notin> c_name ` set cs" by (auto simp: filter_empty_conv)
  with Nil show ?thesis by (simp add: remove_loop_filter)
next
  case (Cons a as)
  then have ne: "filter (\<lambda>c. c_name c = nm) cs \<noteq> []" by simp
  then have "last (filter (\<lambda>c. c_name c = nm) cs) \<in> set (filter (\<lambda>c. c_name c = nm) cs)"
    by (rule last_in_set)
  with assms have "c_type (last (filter (\<lambda>c. c_name c = nm) cs)) \<noteq> []" by auto
  moreover from ne have "nm \<in> c_name ` set cs" by (auto simp: filter_empty_conv)
  ultimately show ?thesis using Cons by (simp add: remove_loop_filter)
qed

lemma example_rename:
  "FPObject_rename crud_server (Some ''H2'') host_object fmc_with_host =
     (Return None, host_object\<lparr>o_json := Held (Record (host_record\<lparr>j_name := ''H2''\<rparr>))\<rparr>,
      fmc_with_host\<lparr>log := [put_request ''https://fmc/api/fmc_config/v1/domain/default/object/hosts/h1''
                 (host_record\<lparr>j_links := None, j_metadata := None, j_name := ''H2''\<rparr>)],
         obj_tables := AList.update ''hosts'' [(''H2'', ''h1'')] (obj_tables example_fmc)\<rparr>)"
  by code_simp

lemma example_delete:
  "FPObject_delete crud_server host_object fmc_with_host =
     (Return (Record host_record),
      fmc_with_host\<lparr>log := [delete_request ''https://fmc/api/fmc_config/v1/domain/default/object/hosts/h1''],
         obj_tables := AList.update ''hosts'' [] (obj_tables example_fmc)\<rparr>)"
  by code_simp

lemma example_delete_again:
  "FPObject_delete crud_server host_object
      (snd (FPObject_delete crud_server host_object fmc_with_host)) =
     (Return Empty,
      fmc_with_host\<lparr>log := [delete_request ''https://fmc/api/fmc_config/v1/domain/default/object/hosts/h1'',
                          delete_request ''https://fmc/api/fmc_config/v1/domain/default/object/hosts/h1''],
         obj_tables := AList.update ''hosts'' [] (obj_tables example_fmc)\<rparr>)"
  by code_simp

text \<open>
  C8 as stated fails: a second \<open>delete()\<close> on the object that was just deleted sends a
  second DELETE request and, the server answering with the empty result, returns that
  result: no error is raised.
\<close>

theorem already_deleted_counterexample:
  "FPObject_delete crud_server host_object
      (snd (FPObject_delete crud_server host_object fmc_with_host)) =
     (Return Empty,
      fmc_with_host\<lparr>log := [delete_request ''https://fmc/api/fmc_config/v1/domain/default/object/hosts/h1'',
                          delete_request ''https://fmc/api/fmc_config/v1/domain/default/object/hosts/h1''],
         obj_tables := AList.update ''hosts'' [] (obj_tables example_fmc)\<rparr>)"
  by code_simp

text \<open>
  C8 (as the code has it). \<open>delete()\<close> on an object that holds a record with a link sends
  the DELETE request to that link, on every call, and does not change the object. When
  the answer is empty it returns the answer and leaves the tables alone; when the answer is
  non-empty and the table of the object's type has an entry for the name, it returns the
  answer and removes the entry; when the answer is non-empty and there is no such entry
  (it is already gone), it raises \<open>KeyError\<close>. There is no Deleted state and no "already
  deleted" error.
\<close>

theorem delete_sends_request:
  assumes "o_type self = Some ty" and "o_json self = Held (Record r)" and "j_links r = Some u"
    and "FPObject_delete T self f = (x, f')"
    and "resp = T (log f) (delete_request u)"
  shows "log f' = log f @ [delete_request u] \<and>
         (resp = Empty \<longrightarrow> x = Return resp \<and> obj_tables f' = obj_tables f) \<and>
         (resp \<noteq> Empty \<and> map_of (obj_tables f) ty = Some obj_names \<and>
            map_of obj_names (j_name r) \<noteq> None \<longrightarrow>
            x = Return resp \<and>
            map_of (obj_tables f') ty = Some (AList.delete (j_name r) obj_names) \<and>
            map_of (AList.delete (j_name r) obj_names) (j_name r) = None) \<and>
         (resp \<noteq> Empty \<and>
            (\<forall>ns. map_of (obj_tables f) ty = Some ns \<longrightarrow> map_of ns (j_name r) = None) \<longrightarrow>
            x = Raise KeyError \<and> obj_tables f' = obj_tables f)"
  using assms
  by (auto simp: FPObject_delete_def fmc_req_def delete_request_def update_conv' delete_conv'
           split: option.splits if_splits)

lemma example_delete_absent:
  "FPObject_delete crud_server host_object example_fmc =
     (Raise KeyError,
      example_fmc\<lparr>log := [delete_request ''https://fmc/api/fmc_config/v1/domain/default/object/hosts/h1'']\<rparr>)"
  by code_simp

theorem delete_sends_request_witness:
  "fst (FPObject_delete crud_server host_object fmc_with_host) = Return (Record host_record) \<and>
   map_of (obj_tables (snd (FPObject_delete crud_server host_object fmc_with_host))) ''hosts'' =
     Some (AList.delete (j_name host_record) [(''H1'', ''h1'')]) \<and>
   log (snd (FPObject_delete crud_server host_object
        (snd (FPObject_delete crud_server host_object fmc_with_host)))) =
     [delete_request ''https://fmc/api/fmc_config/v1/domain/default/object/hosts/h1'',
      delete_request ''https://fmc/api/fmc_config/v1/domain/default/object/hosts/h1''] \<and>
   fst (FPObject_delete crud_server host_object
        (snd (FPObject_delete crud_server host_object fmc_with_host))) = Return Empty \<and>
   fst (FPObject_delete crud_server host_object example_fmc) = Raise KeyError"
proof -
  let ?u = "''https://fmc/api/fmc_config/v1/domain/default/object/hosts/h1''"
  let ?f1 = "snd (FPObject_delete crud_server host_object fmc_with_host)"
  have a: "o_type host_object = Some ''hosts''" "o_json host_object = Held (Record host_record)"
    by (simp_all add: host_object_def)
  have b: "j_links host_record = Some ?u" by (simp add: host_record_def)
  have r1: "Record host_record = crud_server (log fmc_with_host) (delete_request ?u)" by code_simp
  have r2: "Empty = crud_server (log ?f1) (delete_request ?u)" by code_simp
  have r3: "Record host_record = crud_server (log example_fmc) (delete_request ?u)" by code_simp
  have t1: "map_of (obj_tables fmc_with_host) ''hosts'' = Some [(''H1'', ''h1'')]" by code_simp
  have n1: "map_of [(''H1'', ''h1'')] (j_name host_record) \<noteq> None"
    by (simp add: host_record_def host_payload_def)
  have t0: "map_of (obj_tables example_fmc) ''hosts'' = Some []" by code_simp
  have t3: "\<forall>ns. map_of (obj_tables example_fmc) ''hosts'' = Some ns \<longrightarrow>
      map_of ns (j_name host_record) = None" by (simp add: t0)
  have l1: "log ?f1 = [delete_request ?u]" by (simp add: example_delete)
  from delete_sends_request[OF a b example_delete r1, of "[(''H1'', ''h1'')]"] t1 n1
  have p1: "fst (FPObject_delete crud_server host_object fmc_with_host) = Return (Record host_record)"
    "map_of (obj_tables ?f1) ''hosts'' = Some (AList.delete (j_name host_record) [(''H1'', ''h1'')])"
    by (simp_all add: example_delete)
  from delete_sends_request[OF a b example_delete_again r2]
  have p2: "log (snd (FPObject_delete crud_server host_object ?f1)) = log ?f1 @ [delete_request ?u]"
    "fst (FPObject_delete crud_server host_object ?f1) = Return Empty"
    by (simp_all add: example_delete_again)
  from delete_sends_request[OF a b example_delete_absent r3] t3
  have p3: "fst (FPObject_delete crud_server host_object example_fmc) = Raise KeyError"
    by (simp add: example_delete_absent)
  from p1 p2 p3 l1 show ?thesis by simp
qed

text \<open>
  C10 (as the code has it). For an object with a type whose refreshed record carries
  \<open>links\<close> and \<open>metadata\<close> and whose nested references have a non-empty \<open>type\<close>:
  \<open>remove_child\<close> sends the PUT, with the named entries filtered out, exactly when the
  refreshed record has an \<open>objects\<close> list containing the name. Otherwise only the
  refreshing GET is sent, the object holds the refreshed record (which replaces the one
  it held before), and the call returns, or raises \<open>KeyError\<close> when there is no
  \<open>objects\<close> key. The tables are unchanged in every case.
\<close>

theorem remove_child_put_iff:
  assumes "o_type self = Some ty" and "obj_url (o_json self) = Return u"
    and "T (log f) (get_request u) = Record r"
    and "j_links r = Some u'" and "j_metadata r \<noteq> None"
    and "\<forall>c \<in> set (case j_objects r of None \<Rightarrow> [] | Some cs \<Rightarrow> cs). c_type c \<noteq> []"
    and "FPObject_remove_child T child_name self f = (x, self', f')"
  shows "obj_tables f' = obj_tables f \<and>
         (if \<exists>cs. j_objects r = Some cs \<and> child_name \<in> c_name ` set cs
          then log f' = log f @ [get_request u,
                 \<lparr>method = ''PUT'', url = u',
                  data = Some (r\<lparr>j_links := None, j_metadata := None,
                                 j_objects := Some (filter (\<lambda>c. c_name c \<noteq> child_name)
                                                      (the (j_objects r)))\<rparr>)\<rparr>]
          else log f' = log f @ [get_request u] \<and> o_json self' = Held (Record r) \<and>
               x = (if j_objects r = None then Raise KeyError else Return ()))"
proof (cases "j_objects r")
  case None
  with assms show ?thesis
    by (auto simp: FPObject_remove_child_def fmc_req_def Let_def)
next
  case (Some cs)
  let ?self1 = "self\<lparr>o_json := Held (Record r)\<rparr>"
  let ?f1 = "f\<lparr>log := log f @ [get_request u]\<rparr>"
  have ty1: "o_type ?self1 = Some ty" "o_json ?self1 = Held (Record r)" using assms(1) by simp_all
  obtain kept ct where rl: "remove_loop child_name cs ([], []) = (kept, ct)" by (metis prod.exhaust)
  have kept: "kept = filter (\<lambda>c. c_name c \<noteq> child_name) cs"
    using rl by (simp add: remove_loop_filter)
  have ct: "ct \<noteq> [] \<longleftrightarrow> child_name \<in> c_name ` set cs"
    using remove_loop_found[of cs child_name] assms(6) Some rl by simp
  show ?thesis
  proof (cases "child_name \<in> c_name ` set cs")
    case True
    with ct have "ct \<noteq> []" by simp
    with assms(2,3,4,5,7) Some rl kept True show ?thesis
      by (auto simp: FPObject_remove_child_def fmc_req_def Let_def update_effect[OF ty1 assms(4)]
               split: if_splits)
  next
    case False
    with ct have "ct = []" by simp
    with assms(2,3,4,5,7) Some rl False show ?thesis
      by (auto simp: FPObject_remove_child_def fmc_req_def Let_def)
  qed
qed

theorem remove_child_put_iff_witness:
  "obj_tables (snd (snd (FPObject_remove_child crud_server ''G2'' outer_object example_fmc))) =
     obj_tables example_fmc \<and>
   log (snd (snd (FPObject_remove_child crud_server ''G2'' outer_object example_fmc))) =
     [get_request ''https://fmc/api/fmc_config/v1/domain/default/object/networkgroups/1'',
      put_request ''https://fmc/api/fmc_config/v1/domain/default/object/networkgroups/1''
        (outer_group\<lparr>j_links := None, j_metadata := None,
                      j_objects := Some [example_child ''H1'' ''h1'' ''Host'']\<rparr>)]"
proof -
  let ?u = "''https://fmc/api/fmc_config/v1/domain/default/object/networkgroups/1''"
  let ?res = "FPObject_remove_child crud_server ''G2'' outer_object example_fmc"
  have a: "o_type outer_object = Some ''networkgroups''" by (simp add: outer_object_def)
  have b: "obj_url (o_json outer_object) = Return ?u" by code_simp
  have c: "crud_server (log example_fmc) (get_request ?u) = Record outer_group" by code_simp
  have d: "j_links outer_group = Some ?u" by code_simp
  have e: "j_metadata outer_group \<noteq> None" by (simp add: outer_group_def example_record_def)
  have f: "\<forall>c \<in> set (case j_objects outer_group of None \<Rightarrow> [] | Some cs \<Rightarrow> cs). c_type c \<noteq> []"
    by (simp add: outer_group_def example_record_def example_child_def)
  have g: "?res = (fst ?res, fst (snd ?res), snd (snd ?res))" by simp
  have ex: "\<exists>cs. j_objects outer_group = Some cs \<and> ''G2'' \<in> c_name ` set cs"
    by (simp add: outer_group_def example_record_def example_child_def)
  have fl: "filter (\<lambda>c. c_name c \<noteq> ''G2'') (the (j_objects outer_group)) =
      [example_child ''H1'' ''h1'' ''Host'']"
    by (simp add: outer_group_def example_record_def example_child_def)
  have l: "log example_fmc = []" by (simp add: example_fmc_def)
  from remove_child_put_iff[OF a b c d e f g] ex show ?thesis
    by (simp add: fl l put_request_def)
qed

text \<open>
  C10 as stated fails in its last part: when the server's copy of the group has changed,
  a \<open>remove_child\<close> that finds no such child sends no PUT but leaves the object holding
  the refreshed record, not the record it held before the call.
\<close>

theorem remove_child_held_record_counterexample:
  "FPObject_remove_child (\<lambda>h. stale_server) ''G2'' outer_object example_fmc =
     (Return (),
      outer_object\<lparr>o_json := Held (Record (outer_group\<lparr>j_objects :=
                       Some [example_child ''H1'' ''h1'' ''Host'']\<rparr>))\<rparr>,
      example_fmc\<lparr>log := [get_request ''https://fmc/api/fmc_config/v1/domain/default/object/networkgroups/1'']\<rparr>) \<and>
   outer_object\<lparr>o_json := Held (Record (outer_group\<lparr>j_objects :=
                       Some [example_child ''H1'' ''h1'' ''Host'']\<rparr>))\<rparr> \<noteq> outer_object"
  by code_simp

lemma init_fetch_success:
  assumes "init_fetch T type0 oid0 name0 url0 data0 obj0 f = (Return self, obj1, f')"
    and "o_json self = Held (Record r)"
  shows "\<exists>ty i obj_names. o_type self = Some ty \<and> j_id r = Some i \<and>
           map_of (obj_tables f') ty = Some obj_names \<and> map_of obj_names (j_name r) = Some i"
  using assms unfolding init_fetch_def
  by (auto simp: update_conv' split: option.splits outcome.splits prod.splits response.splits)

lemma init_success:
  assumes "FPObject_init T type0 oid0 name0 url0 json0 data0 obj0 f = (Return self, obj1, f')"
    and "o_json self = Held (Record r)"
  shows "\<exists>ty i obj_names. o_type self = Some ty \<and> j_id r = Some i \<and>
           map_of (obj_tables f') ty = Some obj_names \<and> map_of obj_names (j_name r) = Some i"
proof (cases "truthy type0 \<and> json0 \<noteq> None")
  case True
  then obtain ty where ty: "type0 = Some ty" by (cases type0) auto
  with True assms show ?thesis
    by (auto simp: FPObject_init_def update_conv' split: option.splits if_splits)
next
  case False
  with assms have "init_fetch T type0 oid0 name0 url0 data0 obj0 f = (Return self, obj1, f')"
    by (auto simp: FPObject_init_def split: if_splits)
  from init_fetch_success[OF this assms(2)] show ?thesis .
qed

lemma example_create:
  "FPObject_init crud_server None None None None None (Some host_payload) None example_fmc =
     (Return host_object, None,
      fmc_with_host\<lparr>log := [\<lparr>method = ''POST'',
         url = ''https://fmc/api/fmc_config/v1/domain/default/object/hosts'',
         data = Some host_payload\<rparr>]\<rparr>)"
  by code_simp

lemma example_duplicate:
  "FPObject_init crud_server None None None None None None (Some host_object) example_fmc =
     (Return host_object, Some host_object,
      fmc_with_host\<lparr>log := [\<lparr>method = ''POST'',
         url = ''https://fmc/api/fmc_config/v1/domain/default/object/hosts'',
         data = Some host_payload\<rparr>]\<rparr>)"
  by code_simp

lemma rename_effect:
  assumes "FPObject_rename T (Some new_name) self f = (Return x, self', f')"
    and "o_type self = Some ty" and "o_json self = Held (Record r)"
    and "new_name \<noteq> j_name r"
    and "obj_name (o_json self') = Return new_name"
  shows "\<exists>u r' i' obj_names. j_links r = Some u \<and>
           T (log f) (put_request u (r\<lparr>j_links := None, j_metadata := None, j_name := new_name\<rparr>))
             = Record r' \<and>
           o_json self' = Held (Record r') \<and> j_id r' = Some i' \<and>
           map_of (obj_tables f') ty = Some obj_names \<and>
           map_of obj_names (j_name r) = None \<and> map_of obj_names new_name = Some i'"
proof -
  have nn: "new_name \<noteq> []"
  proof
    assume "new_name = []"
    with assms(1) have "self' = self" by (simp add: FPObject_rename_def)
    with assms(3,4,5) show False by simp
  qed
  with assms(1,3) have lk: "j_links r \<noteq> None" "j_metadata r \<noteq> None"
    by (auto simp: FPObject_rename_def split: if_splits)
  then obtain u where u: "j_links r = Some u" by auto
  let ?d = "r\<lparr>j_links := None, j_metadata := None, j_name := new_name\<rparr>"
  let ?rq = "put_request u ?d"
  let ?f1 = "f\<lparr>log := log f @ [?rq]\<rparr>"
  have upd: "FPObject_update T ?d self f =
     (if T (log f) ?rq \<noteq> Empty
      then (Return (Held (T (log f) ?rq)), self\<lparr>o_json := Held (T (log f) ?rq)\<rparr>, ?f1)
      else (Return (o_json self), self, ?f1))"
    using update_effect[OF assms(2,3) u, of T ?d f] by (simp add: Let_def put_request_def)
  show ?thesis
  proof (cases "T (log f) ?rq = Empty")
    case True
    with upd assms(1,3,4) nn lk have "self' = self"
      by (auto simp: FPObject_rename_def split: if_splits)
    with assms(3,4,5) show ?thesis by simp
  next
    case False
    with upd assms(1,3) nn lk have s': "self' = self\<lparr>o_json := Held (T (log f) ?rq)\<rparr>"
      by (auto simp: FPObject_rename_def split: if_splits outcome.splits option.splits)
    with assms(5) obtain r' where resp: "T (log f) ?rq = Record r'" and nm: "j_name r' = new_name"
      by (cases "T (log f) ?rq") auto
    from assms(1,3) nn lk upd resp nm assms(2,4) s' u show ?thesis
      by (auto simp: FPObject_rename_def update_conv' delete_conv'
               split: if_splits option.splits)
  qed
qed

text \<open>
  C5 (as the code has it). After a create that succeeds (the constructor, called with any
  arguments, returns an object holding a record), the table of the object's type maps the
  record's name to its identifier. After a delete that succeeds (a non-empty answer, no
  exception), the table of the object's type has no entry for the name. After a rename to
  a different name that succeeds (the object then holds a record of the new name), the
  object holds the server's answer to the PUT, the table has no entry for the old name and
  maps the new name to the identifier carried by that answer.
\<close>

theorem table_consistency:
  "(FPObject_init T type0 oid0 name0 url0 json0 data0 obj0 f1 = (Return self1, obj1, f1') \<and>
      o_json self1 = Held (Record r1) \<longrightarrow>
      (\<exists>ty i obj_names. o_type self1 = Some ty \<and> j_id r1 = Some i \<and>
          map_of (obj_tables f1') ty = Some obj_names \<and>
          map_of obj_names (j_name r1) = Some i)) \<and>
   (FPObject_delete T self2 f2 = (Return resp, f2') \<and> resp \<noteq> Empty \<and>
      o_type self2 = Some ty2 \<and> o_json self2 = Held (Record r2) \<longrightarrow>
      (\<exists>obj_names. map_of (obj_tables f2') ty2 = Some obj_names \<and>
          map_of obj_names (j_name r2) = None)) \<and>
   (FPObject_rename T (Some new_name) self3 f3 = (Return x, self3', f3') \<and>
      o_type self3 = Some ty3 \<and> o_json self3 = Held (Record r3) \<and>
      new_name \<noteq> j_name r3 \<and> obj_name (o_json self3') = Return new_name \<longrightarrow>
      (\<exists>u r3' i3' obj_names. j_links r3 = Some u \<and>
          T (log f3) (put_request u (r3\<lparr>j_links := None, j_metadata := None,
                                         j_name := new_name\<rparr>)) = Record r3' \<and>
          o_json self3' = Held (Record r3') \<and> j_id r3' = Some i3' \<and>
          map_of (obj_tables f3') ty3 = Some obj_names \<and>
          map_of obj_names (j_name r3) = None \<and> map_of obj_names new_name = Some i3'))"
proof (intro conjI impI)
  assume "FPObject_init T type0 oid0 name0 url0 json0 data0 obj0 f1 = (Return self1, obj1, f1') \<and>
      o_json self1 = Held (Record r1)"
  then show "\<exists>ty i obj_names. o_type self1 = Some ty \<and> j_id r1 = Some i \<and>
          map_of (obj_tables f1') ty = Some obj_names \<and> map_of obj_names (j_name r1) = Some i"
    using init_success by blast
next
  assume a: "FPObject_delete T self2 f2 = (Return resp, f2') \<and> resp \<noteq> Empty \<and>
      o_type self2 = Some ty2 \<and> o_json self2 = Held (Record r2)"
  then obtain u where "j_links r2 = Some u"
    by (cases "j_links r2") (auto simp: FPObject_delete_def)
  with a delete_effect[of self2 ty2 r2 u T f2 "Return resp" f2']
  show "\<exists>obj_names. map_of (obj_tables f2') ty2 = Some obj_names \<and>
          map_of obj_names (j_name r2) = None" by simp
next
  assume "FPObject_rename T (Some new_name) self3 f3 = (Return x, self3', f3') \<and>
      o_type self3 = Some ty3 \<and> o_json self3 = Held (Record r3) \<and>
      new_name \<noteq> j_name r3 \<and> obj_name (o_json self3') = Return new_name"
  then show "\<exists>u r3' i3' obj_names. j_links r3 = Some u \<and>
          T (log f3) (put_request u (r3\<lparr>j_links := None, j_metadata := None,
                                         j_name := new_name\<rparr>)) = Record r3' \<and>
          o_json self3' = Held (Record r3') \<and> j_id r3' = Some i3' \<and>
          map_of (obj_tables f3') ty3 = Some obj_names \<and>
          map_of obj_names (j_name r3) = None \<and> map_of obj_names new_name = Some i3'"
    using rename_effect[of T new_name self3 f3 x self3' f3' ty3 r3] by simp
qed

theorem table_consistency_witness:
  "(\<exists>ty i obj_names. o_type host_object = Some ty \<and> j_id host_record = Some i \<and>
       map_of (obj_tables (snd (snd (FPObject_init crud_server None None None None None
                  (Some host_payload) None example_fmc)))) ty = Some obj_names \<and>
       map_of obj_names (j_name host_record) = Some i) \<and>
   (\<exists>obj_names. map_of (obj_tables (snd (FPObject_delete crud_server host_object fmc_with_host)))
                   ''hosts'' = Some obj_names \<and> map_of obj_names (j_name host_record) = None) \<and>
   (\<exists>i' obj_names.
       obj_id (o_json (fst (snd (FPObject_rename crud_server (Some ''H2'') host_object
                                    fmc_with_host)))) = Return i' \<and>
       map_of (obj_tables (snd (snd (FPObject_rename crud_server (Some ''H2'') host_object
                                       fmc_with_host)))) ''hosts'' = Some obj_names \<and>
       map_of obj_names (j_name host_record) = None \<and> map_of obj_names ''H2'' = Some i')"
proof -
  have h: "o_json host_object = Held (Record host_record)" "o_type host_object = Some ''hosts''"
    by (simp_all add: host_object_def)
  have r: "''H2'' \<noteq> j_name host_record"
    by (simp add: host_record_def host_payload_def)
  have r': "obj_name (o_json (host_object\<lparr>o_json := Held (Record (host_record\<lparr>j_name := ''H2''\<rparr>))\<rparr>))
      = Return ''H2''"
    by (simp add: host_record_def host_payload_def)
  have ne: "Record host_record \<noteq> Empty" by simp
  note t = table_consistency[of crud_server None None None None None "Some host_payload" None
      example_fmc host_object _ _ host_record host_object fmc_with_host "Record host_record" _
      "''hosts''" host_record "''H2''" host_object fmc_with_host None _ _ "''hosts''"
      host_record]
  from t[THEN conjunct1, rule_format, OF conjI[OF example_create h(1)]]
  have p1: "\<exists>ty i obj_names. o_type host_object = Some ty \<and> j_id host_record = Some i \<and>
       map_of (obj_tables (snd (snd (FPObject_init crud_server None None None None None
                  (Some host_payload) None example_fmc)))) ty = Some obj_names \<and>
       map_of obj_names (j_name host_record) = Some i"
    unfolding example_create snd_conv .
  from t[THEN conjunct2, THEN conjunct1, rule_format,
         OF conjI[OF example_delete conjI[OF ne conjI[OF h(2) h(1)]]]]
  have p2: "\<exists>obj_names. map_of (obj_tables (snd (FPObject_delete crud_server host_object
        fmc_with_host))) ''hosts'' = Some obj_names \<and> map_of obj_names (j_name host_record) = None"
    unfolding example_delete snd_conv .
  from t[THEN conjunct2, THEN conjunct2, rule_format,
         OF conjI[OF example_rename conjI[OF h(2) conjI[OF h(1) conjI[OF r r']]]]]
  obtain u r3' i3' obj_names where q:
    "o_json (host_object\<lparr>o_json := Held (Record (host_record\<lparr>j_name := ''H2''\<rparr>))\<rparr>) = Held (Record r3')"
    "j_id r3' = Some i3'"
    "map_of (obj_tables (snd (snd (FPObject_rename crud_server (Some ''H2'') host_object
        fmc_with_host)))) ''hosts'' = Some obj_names"
    "map_of obj_names (j_name host_record) = None" "map_of obj_names ''H2'' = Some i3'"
    unfolding example_rename snd_conv by blast
  from q(1,2) have "obj_id (o_json (fst (snd (FPObject_rename crud_server (Some ''H2'') host_object
        fmc_with_host)))) = Return i3'"
    by (simp add: example_rename)
  with q(3,4,5)
  have p3: "\<exists>i' obj_names.
       obj_id (o_json (fst (snd (FPObject_rename crud_server (Some ''H2'') host_object
                                    fmc_with_host)))) = Return i' \<and>
       map_of (obj_tables (snd (snd (FPObject_rename crud_server (Some ''H2'') host_object
                                       fmc_with_host)))) ''hosts'' = Some obj_names \<and>
       map_of obj_names (j_name host_record) = None \<and> map_of obj_names ''H2'' = Some i'"
    by blast
  from p1 p2 p3 show ?thesis by (intro conjI)
qed

text \<open>
  C5 as stated fails: against a server that answers the PUT with a record of identifier
  \<open>zzz\<close>, renaming \<open>H1\<close> (identifier \<open>h1\<close>) to \<open>H2\<close> leaves \<open>H2\<close> mapped to \<open>zzz\<close> in the
  table, and the object holds identifier \<open>zzz\<close>: the code stores what the answer carries.
\<close>

theorem rename_identifier_counterexample:
  "FPObject_rename renumbering_server (Some ''H2'') host_object fmc_with_host =
     (Return None,
      host_object\<lparr>o_json := Held (Record (host_record\<lparr>j_name := ''H2'', j_id := Some ''zzz''\<rparr>))\<rparr>,
      fmc_with_host\<lparr>log := [put_request ''https://fmc/api/fmc_config/v1/domain/default/object/hosts/h1''
                 (host_record\<lparr>j_links := None, j_metadata := None, j_name := ''H2''\<rparr>)],
         obj_tables := AList.update ''hosts'' [(''H2'', ''zzz'')] (obj_tables example_fmc)\<rparr>) \<and>
   obj_id (o_json host_object) = Return ''h1''"
  by code_simp




text \<open>
  C9. Given both a type (of a table the registry has) and a record, the constructor sends
  no request and assigns the record's name to its identifier in that type's table,
  whatever the table held for the name before, and whatever its other arguments are.
\<close>

theorem hydrate_overwrites:
  assumes "ty \<noteq> []" and "map_of (obj_tables f) ty = Some obj_names" and "j_id j = Some i"
  shows "FPObject_init T (Some ty) oid0 name0 url0 (Some j) data0 obj0 f =
           (Return \<lparr>o_type = Some ty, o_json = Held (Record j)\<rparr>, obj0,
            f\<lparr>obj_tables := AList.update ty (AList.update (j_name j) i obj_names) (obj_tables f)\<rparr>) \<and>
         log (snd (snd (FPObject_init T (Some ty) oid0 name0 url0 (Some j) data0 obj0 f))) = log f \<and>
         map_of (AList.update (j_name j) i obj_names) (j_name j) = Some i"
  using assms by (simp add: FPObject_init_def update_conv')

theorem hydrate_overwrites_witness:
  "FPObject_init crud_server (Some ''networkgroups'') None None None (Some outer_group) None None
      fmc_with_groups =
     (Return outer_object, None,
      fmc_with_groups\<lparr>obj_tables :=
        AList.update ''networkgroups'' [(''G1'', ''1''), (''G2'', ''2'')]
          (obj_tables fmc_with_groups)\<rparr>) \<and>
   log (snd (snd (FPObject_init crud_server (Some ''networkgroups'') None None None
      (Some outer_group) None None fmc_with_groups))) = [] \<and>
   map_of [(''G1'', ''1''), (''G2'', ''2'')] ''G1'' = Some ''1''"
proof -
  have a: "''networkgroups'' \<noteq> []" by simp
  have b: "map_of (obj_tables fmc_with_groups) ''networkgroups'' = Some [(''G1'', ''old''), (''G2'', ''2'')]"
    by code_simp
  have c: "j_id outer_group = Some ''1''" by (simp add: outer_group_def example_record_def)
  have d: "j_name outer_group = ''G1''" by (simp add: outer_group_def example_record_def)
  have e: "log fmc_with_groups = []" by (simp add: fmc_with_groups_def example_fmc_def)
  from hydrate_overwrites[OF a b c, of crud_server None None None None None] show ?thesis
    by (simp add: d e outer_object_def)
qed

end
